theory Spec2Isabelle
  imports Main "HOL-Library.Sublist" "HOL-Library.AList"
begin

section \<open>JavaScript strings\<close>

text \<open>
  A JavaScript string is a sequence of code units. The search and slicing operations
  below only compare code units for equality, so they are written for lists of any
  element type; the handlers use them at type \<open>string\<close>.
\<close>

text \<open>\<^verbatim>\<open>s.startsWith(p)\<close>\<close>

fun startsWith :: "'a list \<Rightarrow> 'a list \<Rightarrow> bool" where
  "startsWith s [] = True"
| "startsWith [] (p # ps) = False"
| "startsWith (c # cs) (p # ps) = (c = p \<and> startsWith cs ps)"

text \<open>
  \<^verbatim>\<open>s.indexOf(p)\<close>: the least position at which \<open>p\<close> starts in \<open>s\<close>, or \<open>-1\<close>.
  The empty pattern is found at position 0 of every string, the empty one included.
\<close>

fun indexOf :: "'a list \<Rightarrow> 'a list \<Rightarrow> int" where
  "indexOf [] p = (if p = [] then 0 else - 1)"
| "indexOf (c # cs) p =
     (if startsWith (c # cs) p then 0
      else (let r = indexOf cs p in if r = - 1 then - 1 else r + 1))"

text \<open>\<^verbatim>\<open>s.includes(p)\<close>\<close>

definition js_includes :: "'a list \<Rightarrow> 'a list \<Rightarrow> bool" where
  "js_includes s p = (indexOf s p \<noteq> - 1)"

text \<open>
  \<^verbatim>\<open>s.slice(start, end)\<close> on integer arguments: a negative argument counts from the
  end of the string, both are clamped to \<open>[0, length]\<close>, and the result is empty when
  the clamped end does not exceed the clamped start.
\<close>

definition js_slice :: "'a list \<Rightarrow> int \<Rightarrow> int \<Rightarrow> 'a list" where
  "js_slice s start stop =
     (let len = int (length s);
          lo = (if start < 0 then max (len + start) 0 else min start len);
          hi = (if stop < 0 then max (len + stop) 0 else min stop len)
      in take (nat (hi - lo)) (drop (nat lo) s))"

text \<open>
  Positions of a pattern in a text, used to state what the search finds:
  \<open>occurs_at s p i\<close> says that \<open>p\<close> stands in \<open>s\<close> at position \<open>i\<close>, and
  \<open>first_occurrence s p i\<close> that \<open>i\<close> is the leftmost such position.
\<close>

definition occurs_at :: "'a list \<Rightarrow> 'a list \<Rightarrow> nat \<Rightarrow> bool" where
  "occurs_at s p i = (i \<le> length s \<and> take (length p) (drop i s) = p)"

definition first_occurrence :: "'a list \<Rightarrow> 'a list \<Rightarrow> nat \<Rightarrow> bool" where
  "first_occurrence s p i = (occurs_at s p i \<and> (\<forall>j<i. \<not> occurs_at s p j))"

section \<open>Excerpt location\<close>

text \<open>
  The two outcomes of \<^verbatim>\<open>extractFromText\<close>: the objects
  \<^verbatim>\<open>{ found: true, title, url, extractedText }\<close> and
  \<^verbatim>\<open>{ found: false, title, url, fullText }\<close>.
\<close>

datatype extraction_result =
    Found string string string
  | NotFound string string string

text \<open>
  \<^verbatim>\<open>extractFromText(body, excerpt, charsBefore, charsAfter, title, pageUrl)\<close>
  (server.js, lines 167-187). \<open>None\<close> is the \<^verbatim>\<open>null\<close> returned for an empty body.
  The two margins are the integers of the request.
\<close>

definition extractFromText ::
  "string \<Rightarrow> string \<Rightarrow> int \<Rightarrow> int \<Rightarrow> string \<Rightarrow> string \<Rightarrow> extraction_result option" where
  "extractFromText body excerpt charsBefore charsAfter title pageUrl =
     (if body = [] then None
      else
        (let index = indexOf body excerpt in
         if index = - 1 then
           (let short = js_slice excerpt 0 40;
                index = indexOf body short in
            if index = - 1 then
              Some (NotFound title pageUrl (js_slice body 0 5000))
            else
              (let start = max 0 (index - charsBefore);
                   stop = min (int (length body)) (index + int (length short) + charsAfter)
               in Some (Found title pageUrl (js_slice body start stop))))
         else
           (let start = max 0 (index - charsBefore);
                stop = min (int (length body)) (index + int (length excerpt) + charsAfter)
            in Some (Found title pageUrl (js_slice body start stop)))))"

text \<open>
  \<^verbatim>\<open>s.trim()\<close> and \<^verbatim>\<open>s.toLowerCase()\<close>. A \<open>char\<close> is read as the code unit
  of the same number, U+0000 to U+00FF: the white space and line terminators of that
  range are removed at both ends, and the upper-case letters of that range (A to Z, and
  U+00C0 to U+00DE without the multiplication sign U+00D7) are mapped to their
  lower-case letters, 32 positions later.
\<close>

definition isWhiteSpace :: "char \<Rightarrow> bool" where
  "isWhiteSpace c = ((of_char c :: nat) \<in> {9, 10, 11, 12, 13, 32, 160})"

definition js_trim :: "string \<Rightarrow> string" where
  "js_trim s = rev (dropWhile isWhiteSpace (rev (dropWhile isWhiteSpace s)))"

definition toLowerCase_unit :: "char \<Rightarrow> char" where
  "toLowerCase_unit c =
     (let n = (of_char c :: nat) in
      if (65 \<le> n \<and> n \<le> 90) \<or> (192 \<le> n \<and> n \<le> 222 \<and> n \<noteq> 215)
      then char_of (n + 32) else c)"

definition js_toLowerCase :: "string \<Rightarrow> string" where
  "js_toLowerCase s = map toLowerCase_unit s"

section \<open>Search cache and search backends\<close>

text \<open>
  A search result \<^verbatim>\<open>{ title, url, snippet }\<close> and a cache entry
  \<^verbatim>\<open>{ results, ts }\<close>. The cache is the \<^verbatim>\<open>Map\<close> \<^verbatim>\<open>searchCache\<close>, kept in insertion
  order: \<^verbatim>\<open>get\<close> is \<open>map_of\<close>, \<^verbatim>\<open>set\<close> is \<open>AList.update\<close> (an existing key keeps
  its place), \<^verbatim>\<open>size\<close> is \<open>length\<close>. Times are the milliseconds of \<^verbatim>\<open>Date.now()\<close>.
\<close>

record search_result =
  title :: string
  url :: string
  snippet :: string

record cache_entry =
  results :: "search_result list"
  ts :: int

type_synonym search_cache = "(string \<times> cache_entry) list"

record server_state =
  searchCache :: search_cache
  lastSearchTs :: int

definition CACHE_TTL :: int where
  "CACHE_TTL = 10 * 60000"

definition GOOGLE_CACHE_TTL :: int where
  "GOOGLE_CACHE_TTL = 30 * 60000"

definition MIN_GAP_MS :: int where
  "MIN_GAP_MS = 1500"

text \<open>
  What a handler sends: \<^verbatim>\<open>res.json({ results })\<close>, with \<^verbatim>\<open>cached: true\<close> on a cache
  hit, or \<^verbatim>\<open>res.status(n).json({ error })\<close>.
\<close>

datatype http_reply =
    Reply_results "search_result list" bool
  | Reply_error nat string

text \<open>The two cache keys (server.js, lines 45 and 114).\<close>

definition ddg_cacheKey :: "string \<Rightarrow> string" where
  "ddg_cacheKey query = js_toLowerCase (js_trim query)"

definition google_cacheKey :: "string \<Rightarrow> string" where
  "google_cacheKey query = ''g:'' @ js_toLowerCase (js_trim query)"

subsection \<open>The scraped backend\<close>

text \<open>
  One \<^verbatim>\<open>.result\<close> block of the parsed page, as the handler reads it through cheerio:
  the \<^verbatim>\<open>href\<close> attribute of its first \<^verbatim>\<open>a.result__a\<close> (\<open>None\<close> is \<^verbatim>\<open>undefined\<close>:
  no such anchor, or no attribute), the text of that anchor (empty when there is none),
  and the text of its first \<^verbatim>\<open>.result__snippet\<close> (\<open>None\<close> when there is none; cheerio's
  \<^verbatim>\<open>text()\<close> of an empty selection is the empty string).
\<close>

record result_el =
  a_href :: "string option"
  a_text :: string
  snippet_text :: "string option"

text \<open>
  The \<^verbatim>\<open>each\<close> loop of lines 76-86 with its two accumulators. \<open>el_href\<close> is
  \<^verbatim>\<open>a.attr('href') || ''\<close>, and \<open>el_result\<close> the object that is pushed, with the
  trimmed texts of the anchor and of the snippet. Returning \<^verbatim>\<open>false\<close> ends the
  iteration; a plain \<^verbatim>\<open>return\<close> goes on to the next block. The url is added to
  \<^verbatim>\<open>seen\<close> before the title is looked at.
\<close>

definition el_href :: "result_el \<Rightarrow> string" where
  "el_href el = (case a_href el of None \<Rightarrow> [] | Some h \<Rightarrow> h)"

definition el_result :: "result_el \<Rightarrow> search_result" where
  "el_result el =
     \<lparr>title = js_trim (a_text el), url = el_href el,
      snippet = js_trim (case snippet_text el of None \<Rightarrow> [] | Some t \<Rightarrow> t)\<rparr>"

fun scrape_each :: "result_el list \<Rightarrow> search_result list \<Rightarrow> string set \<Rightarrow> search_result list" where
  "scrape_each [] rs seen = rs"
| "scrape_each (el # els) rs seen =
     (if length rs \<ge> 10 then rs
      else if \<not> startsWith (el_href el) ''http''
              \<or> js_includes (el_href el) ''duckduckgo.com/y.js''
              \<or> el_href el \<in> seen
      then scrape_each els rs seen
      else if title (el_result el) = [] then scrape_each els rs (insert (el_href el) seen)
      else scrape_each els (rs @ [el_result el]) (insert (el_href el) seen))"

definition scrape_results :: "result_el list \<Rightarrow> search_result list" where
  "scrape_results els = scrape_each els [] {}"

text \<open>
  A block is accepted by the loop, whatever \<^verbatim>\<open>seen\<close> holds, only if it passes the
  tests of lines 80 and 83 on the link and on the title.
\<close>

definition accepted :: "result_el \<Rightarrow> bool" where
  "accepted el =
     (startsWith (el_href el) ''http''
      \<and> \<not> js_includes (el_href el) ''duckduckgo.com/y.js''
      \<and> title (el_result el) \<noteq> [])"

text \<open>
  What the upstream request of the scraped backend comes to: \<^verbatim>\<open>fetch\<close> or
  \<^verbatim>\<open>resp.text()\<close> rejects with a message, or a page is read and parsed. The status of
  the response is not looked at.
\<close>

datatype ddg_upstream =
    Ddg_failed string
  | Ddg_html "result_el list"

text \<open>
  The handler of \<^verbatim>\<open>POST /search/duckduckgo\<close> in three stretches, each running without
  suspension. \<open>ddg_lookup\<close> is lines 45-55: the cache lookup and, on a miss, the time
  to wait. \<open>ddg_dispatch\<close> is line 57, run when the wait is over and directly followed
  by the call of \<^verbatim>\<open>fetch\<close>. \<open>ddg_complete\<close> is lines 70-101, run when the upstream
  request has settled. Every \<^verbatim>\<open>Date.now()\<close> is an argument.
\<close>

definition throttle_wait :: "int \<Rightarrow> int \<Rightarrow> int" where
  "throttle_wait now lastTs = max 0 (MIN_GAP_MS - (now - lastTs))"

datatype ddg_lookup_result =
    Cached http_reply
  | Wait int

definition ddg_lookup :: "server_state \<Rightarrow> int \<Rightarrow> int \<Rightarrow> string \<Rightarrow> ddg_lookup_result" where
  "ddg_lookup st t_lookup t_now query =
     (let cacheKey = ddg_cacheKey query;
          miss = Wait (throttle_wait t_now (lastSearchTs st))
      in case map_of (searchCache st) cacheKey of
           None \<Rightarrow> miss
         | Some cached \<Rightarrow>
             if t_lookup - ts cached < CACHE_TTL
             then Cached (Reply_results (results cached) True)
             else miss)"

definition ddg_dispatch :: "server_state \<Rightarrow> int \<Rightarrow> server_state" where
  "ddg_dispatch st t_sent = st\<lparr>lastSearchTs := t_sent\<rparr>"

definition ddg_complete ::
  "server_state \<Rightarrow> int \<Rightarrow> int \<Rightarrow> string \<Rightarrow> ddg_upstream \<Rightarrow> http_reply \<times> server_state" where
  "ddg_complete st t_store t_evict query up =
     (case up of
        Ddg_failed msg \<Rightarrow> (Reply_error 500 msg, st)
      | Ddg_html els \<Rightarrow>
          (let cacheKey = ddg_cacheKey query;
               rs = scrape_results els;
               cache1 = AList.update cacheKey \<lparr>results = rs, ts = t_store\<rparr> (searchCache st);
               cache2 =
                 (if length cache1 > 500
                  then (let cutoff = t_evict - CACHE_TTL
                        in filter (\<lambda>(k, v). \<not> ts v < cutoff) cache1)
                  else cache1)
           in (Reply_results rs False, st\<lparr>searchCache := cache2\<rparr>)))"

text \<open>
  One request served from start to end, with the five clock readings of its course:
  at the freshness test, at the throttle, after the wait, at the store and at the
  eviction sweep.
\<close>

record ddg_clock =
  at_lookup :: int
  at_throttle :: int
  at_dispatch :: int
  at_store :: int
  at_evict :: int

definition search_duckduckgo ::
  "server_state \<Rightarrow> ddg_clock \<Rightarrow> string \<Rightarrow> ddg_upstream \<Rightarrow> http_reply \<times> server_state" where
  "search_duckduckgo st clk query up =
     (case ddg_lookup st (at_lookup clk) (at_throttle clk) query of
        Cached reply \<Rightarrow> (reply, st)
      | Wait w \<Rightarrow>
          ddg_complete (ddg_dispatch st (at_dispatch clk)) (at_store clk) (at_evict clk) query up)"

subsection \<open>The SERP backend\<close>

text \<open>
  One organic result of the provider (\<^verbatim>\<open>desc\<close> may be missing), and what the upstream
  request comes to: \<^verbatim>\<open>fetch\<close> or \<^verbatim>\<open>resp.json()\<close> rejects with a message, or a response
  with its status, the \<^verbatim>\<open>message\<close> of its body and the list under
  \<^verbatim>\<open>results[0].content.results.organic\<close>, each \<open>None\<close> when missing.
\<close>

record serp_item =
  serp_title :: string
  serp_url :: string
  serp_desc :: "string option"

datatype serp_upstream =
    Serp_failed string
  | Serp_response nat "string option" "serp_item list option"

definition serp_result :: "serp_item \<Rightarrow> search_result" where
  "serp_result r =
     \<lparr>title = serp_title r, url = serp_url r,
      snippet = (case serp_desc r of None \<Rightarrow> [] | Some d \<Rightarrow> d)\<rparr>"

text \<open>
  The handler of \<^verbatim>\<open>POST /search/google\<close> (lines 111-159), with its two clock readings:
  at the freshness test and at the store.
\<close>

definition search_google ::
  "server_state \<Rightarrow> int \<Rightarrow> int \<Rightarrow> string \<Rightarrow> serp_upstream \<Rightarrow> http_reply \<times> server_state" where
  "search_google st t_lookup t_store query up =
     (let cacheKey = google_cacheKey query;
          miss =
            (case up of
               Serp_failed msg \<Rightarrow> (Reply_error 500 msg, st)
             | Serp_response status message organic \<Rightarrow>
                 if \<not> (200 \<le> status \<and> status \<le> 299) then
                   (Reply_error status
                      (case message of
                         None \<Rightarrow> ''Oxylabs SERP error''
                       | Some m \<Rightarrow> if m = [] then ''Oxylabs SERP error'' else m), st)
                 else
                   (let rs = map serp_result
                               (take 10 (case organic of None \<Rightarrow> [] | Some xs \<Rightarrow> xs))
                    in if length rs > 0
                       then (Reply_results rs False,
                             st\<lparr>searchCache :=
                                  AList.update cacheKey \<lparr>results = rs, ts = t_store\<rparr>
                                    (searchCache st)\<rparr>)
                       else (Reply_results rs False, st)))
      in case map_of (searchCache st) cacheKey of
           None \<Rightarrow> miss
         | Some cached \<Rightarrow>
             if t_lookup - ts cached < GOOGLE_CACHE_TTL
             then (Reply_results (results cached) True, st)
             else miss)"

subsection \<open>Requests of the scraped backend in flight together\<close>

text \<open>
  The handler is asynchronous: while one request sleeps in the throttle or waits for
  its upstream answer, the event loop runs the stretches of other requests. A run of
  the server is a list of events, each at a clock reading that never goes back:
  a request arrives (lines 45-56 run and, when there is nothing to wait for, line 57
  and the call of \<^verbatim>\<open>fetch\<close> follow at once), the timer of a sleeping request fires
  no earlier than its delay (line 57 and the call of \<^verbatim>\<open>fetch\<close> run), or the upstream
  request of a request settles (lines 70-101 run). All clock readings of one stretch
  are the instant of its event. \<open>dispatched\<close> is the log of the upstream requests
  sent, each with its request number and its time.
\<close>

datatype pending =
    Sleeping string int
  | Fetching string

datatype event =
    Arrive nat string int
  | Wake nat int
  | Settle nat ddg_upstream int

record loop_state =
  server :: server_state
  clock :: int
  inflight :: "(nat \<times> pending) list"
  dispatched :: "(nat \<times> int) list"
  replies :: "(nat \<times> http_reply) list"

definition event_time :: "event \<Rightarrow> int" where
  "event_time e = (case e of Arrive n q t \<Rightarrow> t | Wake n t \<Rightarrow> t | Settle n up t \<Rightarrow> t)"

definition loop_step :: "loop_state \<Rightarrow> event \<Rightarrow> loop_state option" where
  "loop_step ls e =
     (if event_time e < clock ls then None
      else
        (case e of
           Arrive n query t \<Rightarrow>
             (if map_of (inflight ls) n \<noteq> None then None
              else
                (case ddg_lookup (server ls) t t query of
                   Cached reply \<Rightarrow>
                     Some (ls\<lparr>clock := t, replies := replies ls @ [(n, reply)]\<rparr>)
                 | Wait w \<Rightarrow>
                     if w > 0 then
                       Some (ls\<lparr>clock := t,
                                inflight := AList.update n (Sleeping query (t + w)) (inflight ls)\<rparr>)
                     else
                       Some (ls\<lparr>clock := t,
                                server := ddg_dispatch (server ls) t,
                                inflight := AList.update n (Fetching query) (inflight ls),
                                dispatched := dispatched ls @ [(n, t)]\<rparr>)))
         | Wake n t \<Rightarrow>
             (case map_of (inflight ls) n of
                Some (Sleeping query due) \<Rightarrow>
                  if t < due then None
                  else
                    Some (ls\<lparr>clock := t,
                             server := ddg_dispatch (server ls) t,
                             inflight := AList.update n (Fetching query) (inflight ls),
                             dispatched := dispatched ls @ [(n, t)]\<rparr>)
              | _ \<Rightarrow> None)
         | Settle n up t \<Rightarrow>
             (case map_of (inflight ls) n of
                Some (Fetching query) \<Rightarrow>
                  (let (reply, st1) = ddg_complete (server ls) t t query up
                   in Some (ls\<lparr>clock := t,
                               server := st1,
                               inflight := AList.delete n (inflight ls),
                               replies := replies ls @ [(n, reply)]\<rparr>))
              | _ \<Rightarrow> None)))"

fun loop_run :: "loop_state \<Rightarrow> event list \<Rightarrow> loop_state option" where
  "loop_run ls [] = Some ls"
| "loop_run ls (e # es) =
     (case loop_step ls e of None \<Rightarrow> None | Some ls1 \<Rightarrow> loop_run ls1 es)"

text \<open>
  The server as it starts: an empty cache, \<^verbatim>\<open>lastSearchTs = 0\<close>, nothing in flight.
\<close>

definition loop_start :: "int \<Rightarrow> loop_state" where
  "loop_start t0 =
     \<lparr>server = \<lparr>searchCache = [], lastSearchTs = 0\<rparr>, clock = t0,
      inflight = [], dispatched = [], replies = []\<rparr>"

section \<open>Extraction\<close>

text \<open>
  A thrown error with its message. The parsed page of the fast path after the
  non-content elements are removed: the text of \<^verbatim>\<open>title\<close>, the text of the first
  \<^verbatim>\<open>article, main, [role="main"]\<close> (empty when there is none) and the text of \<^verbatim>\<open>body\<close>.
  What the request of the fast path comes to: \<^verbatim>\<open>fetch\<close> rejects (caught, giving
  \<^verbatim>\<open>null\<close>), or a response with its \<^verbatim>\<open>ok\<close> flag whose body either fails to be read
  (\<^verbatim>\<open>httpResp.text()\<close> rejects) or is read and parsed.
\<close>

datatype js_error = Js_error string

record page_text =
  doc_title :: string
  landmark_text :: string
  body_text :: string

datatype http_outcome =
    Fetch_failed
  | Http_response bool "js_error + page_text"

text \<open>
  \<^verbatim>\<open>extractFast\<close> (lines 190-210): \<open>page_title\<close> and \<open>page_body\<close> are lines 205 and
  206, \<open>Inl\<close> is a rejection, \<open>Inr None\<close> the value \<^verbatim>\<open>null\<close>. A result that is not
  \<^verbatim>\<open>found\<close> is turned into \<^verbatim>\<open>null\<close>.
\<close>

definition page_title :: "page_text \<Rightarrow> string" where
  "page_title pg = js_trim (doc_title pg)"

definition page_body :: "page_text \<Rightarrow> string" where
  "page_body pg = js_trim (if landmark_text pg \<noteq> [] then landmark_text pg else body_text pg)"

definition extractFast ::
  "http_outcome \<Rightarrow> string \<Rightarrow> string \<Rightarrow> int \<Rightarrow> int \<Rightarrow> js_error + extraction_result option" where
  "extractFast httpResp pageUrl excerpt charsBefore charsAfter =
     (case httpResp of
        Fetch_failed \<Rightarrow> Inr None
      | Http_response ok read \<Rightarrow>
          if \<not> ok then Inr None
          else
            (case read of
               Inl err \<Rightarrow> Inl err
             | Inr pg \<Rightarrow>
                 (case extractFromText (page_body pg) excerpt charsBefore charsAfter
                         (page_title pg) pageUrl of
                    Some (Found a b c) \<Rightarrow> Inr (Some (Found a b c))
                  | _ \<Rightarrow> Inr None)))"

text \<open>
  The handler of \<^verbatim>\<open>POST /extract-batch\<close> (lines 252-280). An item carries its own
  margins or none; the request carries margins with the defaults 500 and 1000. Each
  item comes with what its own request of the fast path comes to.
  \<^verbatim>\<open>Promise.allSettled\<close> keeps the outcomes in the order of the items; a rejected or
  \<^verbatim>\<open>null\<close> outcome becomes \<^verbatim>\<open>null\<close> and \<^verbatim>\<open>filter(Boolean)\<close> removes the \<^verbatim>\<open>null\<close>s.
\<close>

record batch_item =
  item_url :: string
  item_excerpt :: string
  item_charsBefore :: "int option"
  item_charsAfter :: "int option"

definition extract_item :: "int \<Rightarrow> int \<Rightarrow> batch_item \<times> http_outcome \<Rightarrow> js_error + extraction_result option" where
  "extract_item charsBefore charsAfter x =
     (case x of (item, httpResp) \<Rightarrow>
        extractFast httpResp (item_url item) (item_excerpt item)
          (case item_charsBefore item of None \<Rightarrow> charsBefore | Some b \<Rightarrow> b)
          (case item_charsAfter item of None \<Rightarrow> charsAfter | Some a \<Rightarrow> a))"

definition settled_value :: "js_error + extraction_result option \<Rightarrow> extraction_result option" where
  "settled_value r = (case r of Inr (Some v) \<Rightarrow> Some v | _ \<Rightarrow> None)"

definition extract_batch ::
  "int option \<Rightarrow> int option \<Rightarrow> (batch_item \<times> http_outcome) list \<Rightarrow> extraction_result list" where
  "extract_batch reqBefore reqAfter items =
     (let charsBefore = (case reqBefore of None \<Rightarrow> 500 | Some b \<Rightarrow> b);
          charsAfter = (case reqAfter of None \<Rightarrow> 1000 | Some a \<Rightarrow> a);
          settled = map (extract_item charsBefore charsAfter) items
      in map the (filter (\<lambda>v. v \<noteq> None) (map settled_value settled)))"

section \<open>Browser session pool\<close>

text \<open>
  The \<^verbatim>\<open>BrowserManager\<close> of browser-manager.js. A session \<^verbatim>\<open>{ context, page }\<close> holds
  the handles of a browsing context and of a page; handles are numbers, given out in
  order by the browser engine. The state is the fields \<^verbatim>\<open>browser\<close> (launched or
  \<^verbatim>\<open>null\<close>) and \<^verbatim>\<open>sessions\<close>, together with the engine's side: how many contexts and
  pages it has created, and which it has closed.
\<close>

record session =
  ctx :: nat
  pg :: nat

record browser_manager =
  browser :: bool
  sessions :: "string \<rightharpoonup> session"
  contexts_created :: nat
  pages_created :: nat
  contexts_closed :: "nat list"
  pages_closed :: "nat list"

text \<open>The first engine call of \<^verbatim>\<open>getSession\<close> that rejects, if any.\<close>

datatype pw_failure =
    NewContext_fails
  | AddInitScript_fails
  | NewPage_fails
  | Route_fails

definition start :: "browser_manager \<Rightarrow> bool \<Rightarrow> (js_error + unit) \<times> browser_manager" where
  "start bm launch_ok =
     (if launch_ok then (Inr (), bm\<lparr>browser := True\<rparr>)
      else (Inl (Js_error ''launch''), bm))"

text \<open>
  \<^verbatim>\<open>getSession(userId)\<close> (lines 26-64) reads the map once, at line 27, and writes
  it once, at line 62; between the two it awaits four calls of the engine
  (\<^verbatim>\<open>newContext\<close>, \<^verbatim>\<open>addInitScript\<close>, \<^verbatim>\<open>newPage\<close>, \<^verbatim>\<open>route\<close>), and while it waits
  other calls run. \<open>getSession_create\<close> is what follows a miss, lines 29-63: the
  engine calls, which touch only the engine's side of the state, and the store.
  \<open>getSession\<close> is a call that no other call of the pool overlaps: the lookup and,
  on a miss, the creation right after it.
\<close>

definition getSession_create ::
  "browser_manager \<Rightarrow> string \<Rightarrow> pw_failure option \<Rightarrow> (js_error + session) \<times> browser_manager" where
  "getSession_create bm userId pw =
     (if \<not> browser bm then (Inl (Js_error ''TypeError''), bm)
      else if pw = Some NewContext_fails then (Inl (Js_error ''newContext''), bm)
      else
        (let c = contexts_created bm;
             bm1 = bm\<lparr>contexts_created := c + 1\<rparr>
         in if pw = Some AddInitScript_fails then (Inl (Js_error ''addInitScript''), bm1)
            else if pw = Some NewPage_fails then (Inl (Js_error ''newPage''), bm1)
            else
              (let p = pages_created bm1;
                   bm2 = bm1\<lparr>pages_created := p + 1\<rparr>
               in if pw = Some Route_fails then (Inl (Js_error ''route''), bm2)
                  else
                    (let s = \<lparr>ctx = c, pg = p\<rparr>
                     in (Inr s, bm2\<lparr>sessions := (sessions bm2)(userId \<mapsto> s)\<rparr>)))))"

definition getSession ::
  "browser_manager \<Rightarrow> string \<Rightarrow> pw_failure option \<Rightarrow> (js_error + session) \<times> browser_manager" where
  "getSession bm userId pw =
     (case sessions bm userId of
        Some s \<Rightarrow> (Inr s, bm)
      | None \<Rightarrow> getSession_create bm userId pw)"

text \<open>
  Calls of \<^verbatim>\<open>getSession\<close> in flight together, as the concurrent requests of
  \<^verbatim>\<open>POST /extract\<close> make them (server.js, line 218). A run is a list of events: a
  numbered call starts and runs line 27 (a hit returns the cached session at once; a
  miss on a pool without browser throws at line 37; any other miss leaves the call
  waiting for the engine), or the engine has answered a waiting call, which then runs
  up to its store at line 62 and returns. \<open>returned\<close> is the log of the calls that
  have returned, each with its number and its result.
\<close>

datatype pool_event =
    Call_getSession nat string
  | Engine_answers nat "pw_failure option"

record pool_loop =
  pool :: browser_manager
  creating :: "(nat \<times> string) list"
  returned :: "(nat \<times> (js_error + session)) list"

definition pool_loop_step :: "pool_loop \<Rightarrow> pool_event \<Rightarrow> pool_loop option" where
  "pool_loop_step pl e =
     (case e of
        Call_getSession n userId \<Rightarrow>
          if map_of (creating pl) n \<noteq> None then None
          else
            (case sessions (pool pl) userId of
               Some s \<Rightarrow> Some (pl\<lparr>returned := returned pl @ [(n, Inr s)]\<rparr>)
             | None \<Rightarrow>
                 if \<not> browser (pool pl)
                 then Some (pl\<lparr>returned := returned pl @ [(n, Inl (Js_error ''TypeError''))]\<rparr>)
                 else Some (pl\<lparr>creating := AList.update n userId (creating pl)\<rparr>))
      | Engine_answers n pw \<Rightarrow>
          (case map_of (creating pl) n of
             None \<Rightarrow> None
           | Some userId \<Rightarrow>
               (let (r, bm1) = getSession_create (pool pl) userId pw
                in Some (pl\<lparr>pool := bm1,
                            creating := AList.delete n (creating pl),
                            returned := returned pl @ [(n, r)]\<rparr>))))"

fun pool_loop_run :: "pool_loop \<Rightarrow> pool_event list \<Rightarrow> pool_loop option" where
  "pool_loop_run pl [] = Some pl"
| "pool_loop_run pl (e # es) =
     (case pool_loop_step pl e of None \<Rightarrow> None | Some pl1 \<Rightarrow> pool_loop_run pl1 es)"

definition pool_loop_start :: "browser_manager \<Rightarrow> pool_loop" where
  "pool_loop_start bm = \<lparr>pool = bm, creating = [], returned = []\<rparr>"

text \<open>\<^verbatim>\<open>destroy(userId)\<close> (lines 66-72); \<^verbatim>\<open>context.close()\<close> may reject.\<close>

definition destroy ::
  "browser_manager \<Rightarrow> string \<Rightarrow> bool \<Rightarrow> (js_error + unit) \<times> browser_manager" where
  "destroy bm userId close_ok =
     (case sessions bm userId of
        None \<Rightarrow> (Inr (), bm)
      | Some s \<Rightarrow>
          if \<not> close_ok then (Inl (Js_error ''close''), bm)
          else (Inr (), bm\<lparr>contexts_closed := ctx s # contexts_closed bm,
                           sessions := (sessions bm)(userId := None)\<rparr>))"

subsection \<open>Full extraction\<close>

text \<open>
  What the browser path comes to once a session is held: \<^verbatim>\<open>context.newPage()\<close>
  rejects, \<^verbatim>\<open>page.goto\<close> rejects, \<^verbatim>\<open>page.evaluate\<close> rejects, or the page is rendered
  and read as body text, title and address. The effects of one call are logged in
  order.
\<close>

datatype browser_outcome =
    Newpage_rejects
  | Goto_rejects
  | Evaluate_rejects
  | Rendered string string string

datatype effect =
    Http_fetch string
  | Get_session string
  | New_page nat
  | Close_page nat

text \<open>
  \<^verbatim>\<open>extractOneUrl\<close> (lines 213-238). The page opened for the call is closed in the
  \<^verbatim>\<open>finally\<close> block, whatever happened after it was opened.
\<close>

definition extractOneUrl ::
  "browser_manager \<Rightarrow> http_outcome \<Rightarrow> pw_failure option \<Rightarrow> browser_outcome \<Rightarrow>
   string \<Rightarrow> string \<Rightarrow> int \<Rightarrow> int \<Rightarrow> string \<Rightarrow>
   (js_error + extraction_result) \<times> browser_manager \<times> effect list" where
  "extractOneUrl bm httpResp pw rendering pageUrl excerpt charsBefore charsAfter userId =
     (case extractFast httpResp pageUrl excerpt charsBefore charsAfter of
        Inl err \<Rightarrow> (Inl err, bm, [Http_fetch pageUrl])
      | Inr (Some fast) \<Rightarrow> (Inr fast, bm, [Http_fetch pageUrl])
      | Inr None \<Rightarrow>
          (case getSession bm userId pw of
             (Inl err, bm1) \<Rightarrow> (Inl err, bm1, [Http_fetch pageUrl, Get_session userId])
           | (Inr s, bm1) \<Rightarrow>
               if rendering = Newpage_rejects
               then (Inl (Js_error ''newPage''), bm1, [Http_fetch pageUrl, Get_session userId])
               else
                 (let p = pages_created bm1;
                      bm2 = bm1\<lparr>pages_created := p + 1, pages_closed := p # pages_closed bm1\<rparr>;
                      log = [Http_fetch pageUrl, Get_session userId, New_page p, Close_page p]
                  in case rendering of
                       Rendered body ttl address \<Rightarrow>
                         (Inr (case extractFromText body excerpt charsBefore charsAfter ttl address of
                                 Some r \<Rightarrow> r
                               | None \<Rightarrow> NotFound ttl address []),
                          bm2, log)
                     | Goto_rejects \<Rightarrow> (Inl (Js_error ''goto''), bm2, log)
                     | _ \<Rightarrow> (Inl (Js_error ''evaluate''), bm2, log))))"

text \<open>
  The operations that reach the pool, each run as a call that no other call overlaps:
  the three methods of the class and the full extraction of server.js, each with what
  the engine and the network answer.
\<close>

datatype pool_op =
    Op_start bool
  | Op_getSession string "pw_failure option"
  | Op_destroy string bool
  | Op_extractOneUrl http_outcome "pw_failure option" browser_outcome string string int int string

fun pool_step :: "browser_manager \<Rightarrow> pool_op \<Rightarrow> browser_manager" where
  "pool_step bm (Op_start launch_ok) = snd (start bm launch_ok)"
| "pool_step bm (Op_getSession userId pw) = snd (getSession bm userId pw)"
| "pool_step bm (Op_destroy userId close_ok) = snd (destroy bm userId close_ok)"
| "pool_step bm (Op_extractOneUrl httpResp pw rendering pageUrl excerpt cb ca userId) =
     fst (snd (extractOneUrl bm httpResp pw rendering pageUrl excerpt cb ca userId))"

fun pool_run :: "browser_manager \<Rightarrow> pool_op list \<Rightarrow> browser_manager" where
  "pool_run bm [] = bm"
| "pool_run bm (x # xs) = pool_run (pool_step bm x) xs"

fun destroys :: "string \<Rightarrow> pool_op \<Rightarrow> bool" where
  "destroys userId (Op_destroy u close_ok) = (u = userId)"
| "destroys userId x = False"

section \<open>Properties of the string operations\<close>

lemma startsWith_take: "startsWith s p \<longleftrightarrow> take (length p) s = p"
  by (induction s p rule: startsWith.induct) auto

lemma startsWith_prefix: "startsWith s p \<longleftrightarrow> prefix p s"
  by (induction s p rule: startsWith.induct) auto

lemma occurs_at_0: "occurs_at s p 0 \<longleftrightarrow> startsWith s p"
  by (simp add: occurs_at_def startsWith_take)

lemma occurs_at_Suc: "occurs_at (c # cs) p (Suc i) \<longleftrightarrow> occurs_at cs p i"
  by (simp add: occurs_at_def)

lemma occurs_at_Nil: "occurs_at [] p i \<longleftrightarrow> i = 0 \<and> p = []"
  by (auto simp: occurs_at_def)

lemma occurs_at_sublist: "(\<exists>i. occurs_at s p i) \<longleftrightarrow> sublist p s"
proof
  assume "\<exists>i. occurs_at s p i"
  then obtain i where i: "i \<le> length s" "take (length p) (drop i s) = p"
    by (auto simp: occurs_at_def)
  have "s = take i s @ p @ drop (length p) (drop i s)"
    using i(2) by (metis append_take_drop_id)
  then show "sublist p s"
    unfolding sublist_def by blast
next
  assume "sublist p s"
  then obtain ps ss where "s = ps @ p @ ss"
    by (auto simp: sublist_def)
  then have "occurs_at s p (length ps)"
    by (simp add: occurs_at_def)
  then show "\<exists>i. occurs_at s p i" ..
qed

lemma indexOf_lower: "- 1 \<le> indexOf s p"
  by (induction s) (auto simp: Let_def)

lemma indexOf_none: "indexOf s p = - 1 \<longleftrightarrow> (\<forall>i. \<not> occurs_at s p i)"
proof (induction s)
  case Nil
  show ?case by (auto simp: occurs_at_Nil)
next
  case (Cons c cs)
  show ?case
  proof (cases "startsWith (c # cs) p")
    case True
    then have "occurs_at (c # cs) p 0" by (simp add: occurs_at_0)
    with True show ?thesis by auto
  next
    case False
    have "(\<forall>i. \<not> occurs_at (c # cs) p i) \<longleftrightarrow> (\<forall>i. \<not> occurs_at cs p i)"
    proof
      assume a: "\<forall>i. \<not> occurs_at (c # cs) p i"
      show "\<forall>i. \<not> occurs_at cs p i"
      proof
        fix i from a have "\<not> occurs_at (c # cs) p (Suc i)" by blast
        then show "\<not> occurs_at cs p i" by (simp add: occurs_at_Suc)
      qed
    next
      assume a: "\<forall>i. \<not> occurs_at cs p i"
      show "\<forall>i. \<not> occurs_at (c # cs) p i"
      proof
        fix i show "\<not> occurs_at (c # cs) p i"
          using a False by (cases i) (simp_all add: occurs_at_0 occurs_at_Suc)
      qed
    qed
    moreover have "indexOf (c # cs) p = - 1 \<longleftrightarrow> indexOf cs p = - 1"
      using False indexOf_lower [of cs p] by (auto simp: Let_def)
    ultimately show ?thesis using Cons.IH by simp
  qed
qed

lemma indexOf_first: "indexOf s p = int i \<longleftrightarrow> first_occurrence s p i"
proof (induction s arbitrary: i)
  case Nil
  show ?case by (auto simp: first_occurrence_def occurs_at_Nil)
next
  case (Cons c cs)
  show ?case
  proof (cases "startsWith (c # cs) p")
    case True
    then have 0: "occurs_at (c # cs) p 0" by (simp add: occurs_at_0)
    have "first_occurrence (c # cs) p i \<longleftrightarrow> i = 0"
      using 0 by (cases i) (auto simp: first_occurrence_def)
    with True show ?thesis by auto
  next
    case False
    then have n0: "\<not> occurs_at (c # cs) p 0" by (simp add: occurs_at_0)
    show ?thesis
    proof (cases i)
      case 0
      have "indexOf (c # cs) p \<noteq> 0"
        using False indexOf_lower [of cs p] by (auto simp: Let_def)
      with 0 n0 show ?thesis by (auto simp: first_occurrence_def)
    next
      case (Suc k)
      have "first_occurrence (c # cs) p (Suc k) \<longleftrightarrow> first_occurrence cs p k"
      proof
        assume a: "first_occurrence (c # cs) p (Suc k)"
        have "\<not> occurs_at cs p j" if "j < k" for j
        proof -
          from that a have "\<not> occurs_at (c # cs) p (Suc j)"
            by (simp add: first_occurrence_def)
          then show ?thesis by (simp add: occurs_at_Suc)
        qed
        with a show "first_occurrence cs p k"
          by (simp add: first_occurrence_def occurs_at_Suc)
      next
        assume a: "first_occurrence cs p k"
        have "\<not> occurs_at (c # cs) p j" if "j < Suc k" for j
          using that a n0 by (cases j) (simp_all add: first_occurrence_def occurs_at_Suc)
        with a show "first_occurrence (c # cs) p (Suc k)"
          by (simp add: first_occurrence_def occurs_at_Suc)
      qed
      moreover have "indexOf (c # cs) p = int (Suc k) \<longleftrightarrow> indexOf cs p = int k"
        using False by (auto simp: Let_def)
      ultimately show ?thesis using Suc Cons.IH by simp
    qed
  qed
qed

lemma js_slice_0: "0 \<le> n \<Longrightarrow> js_slice s 0 n = take (nat n) s"
  by (auto simp: js_slice_def Let_def min_def)

lemma not_sublist_indexOf: "\<not> sublist p s \<longleftrightarrow> indexOf s p = - 1"
  using occurs_at_sublist [of s p] indexOf_none [of s p] by blast

lemma js_slice_nonneg:
  assumes "0 \<le> lo" and "0 \<le> hi"
  shows "js_slice s lo hi = drop (nat lo) (take (nat hi) s)"
proof -
  let ?len = "int (length s)"
  have "js_slice s lo hi = take (nat (min hi ?len - min lo ?len)) (drop (nat (min lo ?len)) s)"
    using assms by (simp add: js_slice_def Let_def not_less [symmetric])
  also have "\<dots> = drop (nat lo) (take (nat hi) s)"
    using assms by (cases "lo \<le> ?len"; cases "hi \<le> ?len") (auto simp: drop_take min_def nat_diff_distrib')
  finally show ?thesis .
qed

lemma js_slice_window:
  "js_slice s (max 0 (int i - int b)) (min (int (length s)) (int i + int n + int a))
     = drop (i - b) (take (i + n + a) s)"
proof -
  have lo: "nat (max 0 (int i - int b)) = i - b" by (auto simp: max_def)
  have hi: "nat (min (int (length s)) (int i + int n + int a)) = min (length s) (i + n + a)"
    by (auto simp: min_def)
  have "take (min (length s) (i + n + a)) s = take (i + n + a) s"
    by (simp add: min_def)
  then show ?thesis
    by (simp add: js_slice_nonneg lo hi del: take_all_iff)
qed

section \<open>Excerpt location: the three outcomes\<close>

text \<open>
  Line 168: for the empty body the result is \<^verbatim>\<open>null\<close>, whatever the excerpt and the
  margins.
\<close>

lemma extractFromText_empty_body: "extractFromText [] excerpt cb ca t u = None"
  by (simp add: extractFromText_def)

text \<open>
  Claim C3. The claim reads: for every body text containing the excerpt verbatim at
  index \<open>i\<close>, \<^verbatim>\<open>extractFromText\<close> returns \<^verbatim>\<open>Found\<close> whose \<^verbatim>\<open>extractedText\<close> is the slice
  of the body over \<open>[max(0, i - before), min(len, i + len(excerpt) + after)]\<close>. As
  stated this fails at the empty body, which contains the empty excerpt at index 0 and
  for which line 168 returns \<^verbatim>\<open>null\<close>.
\<close>

theorem extractFromText_empty_body_counterexample:
  "occurs_at ([] :: string) [] 0 \<and> extractFromText [] [] 500 1000 ''T'' ''U'' = None"
  by (simp add: occurs_at_def extractFromText_def)

text \<open>
  Claim C3, amended: for every non-empty body text containing the excerpt verbatim,
  with \<open>i\<close> the index at which the search finds it (its first occurrence),
  \<^verbatim>\<open>extractFromText\<close> returns \<^verbatim>\<open>Found\<close> whose \<^verbatim>\<open>extractedText\<close> is
  \<^verbatim>\<open>body.slice(max(0, i - before), min(len, i + len(excerpt) + after))\<close>; for margins
  that are not negative these are the characters of the body from position
  \<open>max(0, i - before)\<close> up to, not including, position
  \<open>min(len, i + len(excerpt) + after)\<close>.
\<close>

theorem extractFromText_exact:
  assumes "body \<noteq> []" and "first_occurrence body excerpt i"
  shows "extractFromText body excerpt cb ca t u =
           Some (Found t u
             (js_slice body (max 0 (int i - cb))
                (min (int (length body)) (int i + int (length excerpt) + ca))))
         \<and> (0 \<le> cb \<and> 0 \<le> ca \<longrightarrow>
              extractFromText body excerpt cb ca t u =
                Some (Found t u (drop (i - nat cb) (take (i + length excerpt + nat ca) body))))"
proof -
  from assms(2) have ix: "indexOf body excerpt = int i"
    by (simp add: indexOf_first)
  then have 1: "extractFromText body excerpt cb ca t u =
           Some (Found t u
             (js_slice body (max 0 (int i - cb))
                (min (int (length body)) (int i + int (length excerpt) + ca))))"
    using assms(1) by (simp add: extractFromText_def Let_def)
  have 2: "extractFromText body excerpt cb ca t u =
             Some (Found t u (drop (i - nat cb) (take (i + length excerpt + nat ca) body)))"
    if "0 \<le> cb" "0 \<le> ca"
    using 1 that js_slice_window [of body i "nat cb" "length excerpt" "nat ca"] by simp
  from 1 2 show ?thesis by blast
qed

theorem extractFromText_exact_witness:
  "''lorem ipsum the quick brown fox jumps over'' \<noteq> []
   \<and> first_occurrence ''lorem ipsum the quick brown fox jumps over'' ''the quick brown fox'' 12
   \<and> extractFromText ''lorem ipsum the quick brown fox jumps over'' ''the quick brown fox'' 5 5 ''T'' ''U''
       = Some (Found ''T'' ''U'' ''psum the quick brown fox jump'')"
  using extractFromText_exact [of "''lorem ipsum the quick brown fox jumps over''"
      "''the quick brown fox''" 12 5 5 "''T''" "''U''"]
  by (simp add: indexOf_first [symmetric] js_slice_def)

text \<open>
  Claim C4: for every body text that does not contain the excerpt verbatim but contains
  the excerpt's first 40 characters, found by the search at index \<open>j\<close> (their first
  occurrence), \<^verbatim>\<open>extractFromText\<close> returns \<^verbatim>\<open>Found\<close> with the window
  \<open>[max(0, j - before), min(len, j + probeLen + after)]\<close>, where \<open>probeLen\<close> is the
  length of the 40-character probe and not that of the excerpt.
\<close>

theorem extractFromText_fuzzy:
  assumes "\<not> sublist excerpt body" and "first_occurrence body (take 40 excerpt) j"
  shows "extractFromText body excerpt cb ca t u =
           Some (Found t u
             (js_slice body (max 0 (int j - cb))
                (min (int (length body)) (int j + int (length (take 40 excerpt)) + ca))))
         \<and> (0 \<le> cb \<and> 0 \<le> ca \<longrightarrow>
              extractFromText body excerpt cb ca t u =
                Some (Found t u
                  (drop (j - nat cb) (take (j + length (take 40 excerpt) + nat ca) body))))"
proof -
  from assms(1) have "excerpt \<noteq> []" by auto
  then have "take 40 excerpt \<noteq> []" by simp
  moreover from assms(2) have "take (length (take 40 excerpt)) (drop j body) = take 40 excerpt"
    by (simp add: first_occurrence_def occurs_at_def)
  ultimately have body: "body \<noteq> []" by auto
  from assms(1) have nx: "indexOf body excerpt = - 1"
    by (simp add: not_sublist_indexOf)
  from assms(2) have ix: "indexOf body (take 40 excerpt) = int j"
    by (simp add: indexOf_first)
  have 1: "extractFromText body excerpt cb ca t u =
           Some (Found t u
             (js_slice body (max 0 (int j - cb))
                (min (int (length body)) (int j + int (length (take 40 excerpt)) + ca))))"
    using body nx ix by (simp add: extractFromText_def js_slice_0 Let_def)
  have 2: "extractFromText body excerpt cb ca t u =
             Some (Found t u
               (drop (j - nat cb) (take (j + length (take 40 excerpt) + nat ca) body)))"
    if "0 \<le> cb" "0 \<le> ca"
    using 1 that js_slice_window [of body j "nat cb" "length (take 40 excerpt)" "nat ca"] by simp
  from 1 2 show ?thesis by blast
qed

theorem extractFromText_fuzzy_witness:
  "\<not> sublist ''0123456789012345678901234567890123456789 and more'' ''ab0123456789012345678901234567890123456789cd''
   \<and> first_occurrence ''ab0123456789012345678901234567890123456789cd''
        (take 40 ''0123456789012345678901234567890123456789 and more'') 2
   \<and> extractFromText ''ab0123456789012345678901234567890123456789cd''
        ''0123456789012345678901234567890123456789 and more'' 1 1 ''T'' ''U''
       = Some (Found ''T'' ''U'' ''b0123456789012345678901234567890123456789c'')"
  using extractFromText_fuzzy [of "''0123456789012345678901234567890123456789 and more''"
      "''ab0123456789012345678901234567890123456789cd''" 2 1 1 "''T''" "''U''"]
  by (simp add: indexOf_first [symmetric] not_sublist_indexOf js_slice_def)

text \<open>
  Claim C5: for every non-empty body text in which neither the excerpt nor its first 40
  characters occur, \<^verbatim>\<open>extractFromText\<close> returns \<^verbatim>\<open>NotFound\<close> whose \<^verbatim>\<open>fullText\<close> is the
  first 5000 characters of the body, so at most 5000 characters.
\<close>

theorem extractFromText_not_found:
  assumes "body \<noteq> []" and "\<not> sublist excerpt body" and "\<not> sublist (take 40 excerpt) body"
  shows "extractFromText body excerpt cb ca t u = Some (NotFound t u (take 5000 body))
         \<and> length (take 5000 body) \<le> 5000"
  using assms by (simp add: extractFromText_def not_sublist_indexOf js_slice_0)

theorem extractFromText_not_found_witness:
  "''hello world'' \<noteq> [] \<and> \<not> sublist ''zzz'' ''hello world''
   \<and> \<not> sublist (take 40 ''zzz'') ''hello world''
   \<and> extractFromText ''hello world'' ''zzz'' 500 1000 ''T'' ''U''
       = Some (NotFound ''T'' ''U'' ''hello world'')"
  using extractFromText_not_found [of "''hello world''" "''zzz''" 500 1000 "''T''" "''U''"]
  by (simp add: not_sublist_indexOf)

section \<open>The scraped result list\<close>

text \<open>
  Three invariants of the loop of lines 76-86: the list never grows beyond 10 entries,
  its urls stay distinct as long as every url in it has been recorded in \<^verbatim>\<open>seen\<close>, and
  every entry added is the object built from an accepted block.
\<close>

lemma scrape_each_length:
  "length rs \<le> 10 \<Longrightarrow> length (scrape_each els rs seen) \<le> 10"
  by (induction els arbitrary: rs seen) auto

lemma scrape_each_distinct:
  "distinct (map url rs) \<Longrightarrow> url ` set rs \<subseteq> seen \<Longrightarrow>
   distinct (map url (scrape_each els rs seen))"
proof (induction els arbitrary: rs seen)
  case Nil
  then show ?case by simp
next
  case (Cons el els)
  let ?h = "el_href el"
  have u: "url (el_result el) = ?h" by (simp add: el_result_def)
  have a: "distinct (map url (scrape_each els rs (insert ?h seen)))"
    using Cons.prems by (intro Cons.IH) auto
  have b: "distinct (map url (scrape_each els (rs @ [el_result el]) (insert ?h seen)))"
    if "?h \<notin> seen"
    using Cons.prems that u by (intro Cons.IH) auto
  show ?case
    using Cons.prems Cons.IH [of rs seen] a b by simp
qed

lemma scrape_each_mem:
  "r \<in> set (scrape_each els rs seen) \<Longrightarrow>
   r \<in> set rs \<or> (\<exists>el \<in> set els. r = el_result el \<and> accepted el)"
proof (induction els arbitrary: rs seen)
  case Nil
  then show ?case by simp
next
  case (Cons el els)
  show ?case
  proof (cases "length rs \<ge> 10")
    case True
    with Cons.prems show ?thesis by simp
  next
    case False
    show ?thesis
    proof (cases "\<not> startsWith (el_href el) ''http''
              \<or> js_includes (el_href el) ''duckduckgo.com/y.js''
              \<or> el_href el \<in> seen")
      case True
      with False Cons.prems have "r \<in> set (scrape_each els rs seen)" by simp
      from Cons.IH [OF this] show ?thesis by auto
    next
      case rej: False
      show ?thesis
      proof (cases "title (el_result el) = []")
        case True
        with False rej Cons.prems
        have "r \<in> set (scrape_each els rs (insert (el_href el) seen))" by simp
        from Cons.IH [OF this] show ?thesis by auto
      next
        case nonempty: False
        with False rej Cons.prems
        have "r \<in> set (scrape_each els (rs @ [el_result el]) (insert (el_href el) seen))"
          by simp
        from Cons.IH [OF this] rej nonempty show ?thesis
          by (auto simp: accepted_def)
      qed
    qed
  qed
qed

lemma js_trim_Nil: "js_trim [] = []"
  by (simp add: js_trim_def)

text \<open>
  Claim C7: for every page parsed by the scraped backend, the result list has at most
  10 entries, no two entries have the same url, and every entry has a url that starts
  with \<^verbatim>\<open>http\<close> and does not contain the redirect/ad path \<^verbatim>\<open>duckduckgo.com/y.js\<close>, a
  title that is not empty, and comes from a block of the page: its url is the link of
  the block, its title the trimmed text of the anchor, its snippet the trimmed text of
  the snippet element, or the empty string when the block has none.
\<close>

theorem scrape_results_ok:
  "length (scrape_results els) \<le> 10
   \<and> distinct (map url (scrape_results els))
   \<and> (\<forall>r \<in> set (scrape_results els).
        prefix ''http'' (url r) \<and> \<not> sublist ''duckduckgo.com/y.js'' (url r) \<and> title r \<noteq> []
        \<and> (\<exists>el \<in> set els. a_href el = Some (url r) \<and> title r = js_trim (a_text el)
              \<and> snippet r = (case snippet_text el of None \<Rightarrow> [] | Some t \<Rightarrow> js_trim t)))"
proof (intro conjI ballI)
  show "length (scrape_results els) \<le> 10"
    by (simp add: scrape_results_def scrape_each_length)
  show "distinct (map url (scrape_results els))"
    by (simp add: scrape_results_def scrape_each_distinct)
next
  fix r assume "r \<in> set (scrape_results els)"
  then obtain el where el: "el \<in> set els" "r = el_result el" "accepted el"
    using scrape_each_mem [of r els "[]" "{}"] by (auto simp: scrape_results_def)
  have u: "url r = el_href el" and t: "title r = js_trim (a_text el)"
    using el(2) by (simp_all add: el_result_def)
  from el(3) u show "prefix ''http'' (url r)"
    by (simp add: accepted_def startsWith_prefix)
  from el(3) u show "\<not> sublist ''duckduckgo.com/y.js'' (url r)"
    by (simp add: accepted_def js_includes_def not_sublist_indexOf)
  from el(3) el(2) show "title r \<noteq> []"
    by (simp add: accepted_def)
  from el(3) have "el_href el \<noteq> []"
    by (auto simp: accepted_def)
  then have "a_href el = Some (url r)"
    using u by (simp add: el_href_def split: option.splits)
  moreover have "snippet r = (case snippet_text el of None \<Rightarrow> [] | Some t \<Rightarrow> js_trim t)"
    using el(2) by (simp add: el_result_def js_trim_Nil split: option.splits)
  ultimately show "\<exists>el \<in> set els. a_href el = Some (url r) \<and> title r = js_trim (a_text el)
              \<and> snippet r = (case snippet_text el of None \<Rightarrow> [] | Some t \<Rightarrow> js_trim t)"
    using el(1) t by blast
qed

theorem scrape_results_ok_witness:
  "scrape_results
     [\<lparr>a_href = Some ''https://a.org/book'', a_text = '' The Book '',
       snippet_text = Some '' Ownership ''\<rparr>,
      \<lparr>a_href = Some ''https://duckduckgo.com/y.js?ad=1'', a_text = ''Ad'', snippet_text = None\<rparr>,
      \<lparr>a_href = Some ''https://a.org/book'', a_text = ''Again'', snippet_text = None\<rparr>,
      \<lparr>a_href = Some ''//a.org/rel'', a_text = ''Relative'', snippet_text = None\<rparr>,
      \<lparr>a_href = None, a_text = ''No link'', snippet_text = None\<rparr>,
      \<lparr>a_href = Some ''http://c.org'', a_text = ''  '', snippet_text = Some ''blank title''\<rparr>,
      \<lparr>a_href = Some ''http://b.org'', a_text = ''B'', snippet_text = None\<rparr>]
   = [\<lparr>title = ''The Book'', url = ''https://a.org/book'', snippet = ''Ownership''\<rparr>,
      \<lparr>title = ''B'', url = ''http://b.org'', snippet = []\<rparr>]"
  using scrape_results_ok [of
     "[\<lparr>a_href = Some ''https://a.org/book'', a_text = '' The Book '',
       snippet_text = Some '' Ownership ''\<rparr>,
      \<lparr>a_href = Some ''https://duckduckgo.com/y.js?ad=1'', a_text = ''Ad'', snippet_text = None\<rparr>,
      \<lparr>a_href = Some ''https://a.org/book'', a_text = ''Again'', snippet_text = None\<rparr>,
      \<lparr>a_href = Some ''//a.org/rel'', a_text = ''Relative'', snippet_text = None\<rparr>,
      \<lparr>a_href = None, a_text = ''No link'', snippet_text = None\<rparr>,
      \<lparr>a_href = Some ''http://c.org'', a_text = ''  '', snippet_text = Some ''blank title''\<rparr>,
      \<lparr>a_href = Some ''http://b.org'', a_text = ''B'', snippet_text = None\<rparr>]"]
  by (simp add: scrape_results_def el_href_def el_result_def js_includes_def js_trim_def
      isWhiteSpace_def)

section \<open>Search cache: keys and store policy\<close>

text \<open>
  The two keys of one query always differ: the SERP key is two characters longer.
\<close>

lemma same_query_keys_differ: "ddg_cacheKey q \<noteq> google_cacheKey q"
proof
  assume "ddg_cacheKey q = google_cacheKey q"
  then have "length (ddg_cacheKey q) = length (google_cacheKey q)" by simp
  then show False by (simp add: ddg_cacheKey_def google_cacheKey_def)
qed

text \<open>
  Claim C2: the cache keys of the two backends never collide, since each carries a
  prefix of its backend, so that no query to one backend reads or overwrites an entry
  of the other. The code gives a prefix to the SERP key only (line 114); the key of the
  scraped backend is the bare normalised query (line 45). Evaluated here: the scraped
  key of the query \<^verbatim>\<open>g:foo\<close> is the SERP key of the query \<^verbatim>\<open>foo\<close>; a SERP search for
  \<^verbatim>\<open>foo\<close> stores its result under that key, and a later scraped search for
  \<^verbatim>\<open>g:foo\<close> is answered from that entry, marked as cached, whatever its own upstream
  would have returned.
\<close>

theorem cache_key_collision:
  "ddg_cacheKey ''g:foo'' = google_cacheKey ''foo''
   \<and> search_google \<lparr>searchCache = [], lastSearchTs = 0\<rparr> 1000000 1000900 ''foo''
         (Serp_response 200 None
            (Some [\<lparr>serp_title = ''Foo'', serp_url = ''https://foo.org'', serp_desc = None\<rparr>]))
       = (Reply_results [\<lparr>title = ''Foo'', url = ''https://foo.org'', snippet = []\<rparr>] False,
          \<lparr>searchCache =
              [(''g:foo'',
                \<lparr>results = [\<lparr>title = ''Foo'', url = ''https://foo.org'', snippet = []\<rparr>],
                 ts = 1000900\<rparr>)],
            lastSearchTs = 0\<rparr>)
   \<and> fst (search_duckduckgo
          \<lparr>searchCache =
              [(''g:foo'',
                \<lparr>results = [\<lparr>title = ''Foo'', url = ''https://foo.org'', snippet = []\<rparr>],
                 ts = 1000900\<rparr>)],
            lastSearchTs = 0\<rparr>
          \<lparr>at_lookup = 1002000, at_throttle = 1002000, at_dispatch = 1002000,
           at_store = 1002800, at_evict = 1002800\<rparr> ''g:foo'' up)
       = Reply_results [\<lparr>title = ''Foo'', url = ''https://foo.org'', snippet = []\<rparr>] True"
  by (simp add: ddg_lookup_def CACHE_TTL_def search_google_def serp_result_def Let_def
      search_duckduckgo_def ddg_cacheKey_def google_cacheKey_def js_trim_def js_toLowerCase_def
      toLowerCase_unit_def isWhiteSpace_def)

text \<open>
  The sweep of lines 92-97 keeps an entry that is not older than the cutoff, and so
  the store of the scraped backend is read back after it.
\<close>

lemma map_of_sweep:
  assumes "map_of al k = Some v" and "\<not> ts v < cutoff"
  shows "map_of (filter (\<lambda>(k, v). \<not> ts v < cutoff) al) k = Some v"
  using assms by (induction al) (auto split: if_splits)

lemma ddg_complete_stores:
  assumes "t_evict - t_store \<le> CACHE_TTL"
  shows "map_of (searchCache (snd (ddg_complete st t_store t_evict q (Ddg_html els)))) (ddg_cacheKey q)
           = Some \<lparr>results = scrape_results els, ts = t_store\<rparr>"
proof -
  let ?e = "\<lparr>results = scrape_results els, ts = t_store\<rparr>"
  let ?c1 = "AList.update (ddg_cacheKey q) ?e (searchCache st)"
  have 1: "map_of ?c1 (ddg_cacheKey q) = Some ?e"
    by (simp add: update_conv')
  have 2: "\<not> ts ?e < t_evict - CACHE_TTL"
    using assms by simp
  have 3: "map_of (filter (\<lambda>(k, v). \<not> ts v < t_evict - CACHE_TTL) ?c1) (ddg_cacheKey q) = Some ?e"
    by (rule map_of_sweep [OF 1 2])
  show ?thesis
  proof (cases "length ?c1 > 500")
    case True
    then have "searchCache (snd (ddg_complete st t_store t_evict q (Ddg_html els)))
                 = filter (\<lambda>(k, v). \<not> ts v < t_evict - CACHE_TTL) ?c1"
      by (simp add: ddg_complete_def Let_def)
    with 3 show ?thesis by (simp only:)
  next
    case False
    then have "searchCache (snd (ddg_complete st t_store t_evict q (Ddg_html els))) = ?c1"
      by (simp add: ddg_complete_def Let_def)
    with 1 show ?thesis by (simp only:)
  qed
qed

text \<open>
  On a miss the SERP handler is a function of the upstream answer alone.
\<close>

lemma serp_miss_eq:
  assumes "\<forall>c. map_of (searchCache st) (google_cacheKey q) = Some c \<longrightarrow> \<not> t1 - ts c < GOOGLE_CACHE_TTL"
  shows "search_google st t1 t2 q up =
     (case up of
        Serp_failed msg \<Rightarrow> (Reply_error 500 msg, st)
      | Serp_response status message organic \<Rightarrow>
          if \<not> (200 \<le> status \<and> status \<le> 299) then
            (Reply_error status
               (case message of
                  None \<Rightarrow> ''Oxylabs SERP error''
                | Some m \<Rightarrow> if m = [] then ''Oxylabs SERP error'' else m), st)
          else
            (let rs = map serp_result (take 10 (case organic of None \<Rightarrow> [] | Some xs \<Rightarrow> xs))
             in if length rs > 0
                then (Reply_results rs False,
                      st\<lparr>searchCache :=
                           AList.update (google_cacheKey q) \<lparr>results = rs, ts = t2\<rparr> (searchCache st)\<rparr>)
                else (Reply_results rs False, st)))"
  using assms by (simp add: search_google_def Let_def split: option.splits)

text \<open>
  Claim C6: a call of the SERP backend stores a cache entry under the key of its query
  exactly when it obtained at least one result. When the cache holds no fresh entry for
  the key: a failed upstream request is answered with status 500 and leaves the state
  as it is; so does an upstream answer with a non-success status, answered with that
  status; so does a successful answer without organic results or with an empty list,
  answered with the empty result list; and a successful answer with at least one
  organic result stores the mapped first ten of them, which are not empty, under the
  key with the time of the store, and the entry is read back from the new cache. When
  the cache holds a fresh entry, it is returned marked as cached and the state is
  unchanged, whatever the upstream would answer. The scraped backend, once it has
  missed the cache and read a page, stores the parsed result list under the key of its
  query and the entry is there afterwards, also when that list is empty (the clock is
  taken not to advance by more than the time-to-live between the store and the sweep).
\<close>

theorem cache_store_policy:
  "((\<forall>c. map_of (searchCache st) (google_cacheKey q) = Some c \<longrightarrow>
          \<not> t1 - ts c < GOOGLE_CACHE_TTL) \<longrightarrow>
      search_google st t1 t2 q (Serp_failed msg) = (Reply_error 500 msg, st)
      \<and> (\<not> (200 \<le> status \<and> status \<le> 299) \<longrightarrow>
           search_google st t1 t2 q (Serp_response status message organic)
             = (Reply_error status
                  (case message of
                     None \<Rightarrow> ''Oxylabs SERP error''
                   | Some m \<Rightarrow> if m = [] then ''Oxylabs SERP error'' else m), st))
      \<and> (200 \<le> status \<and> status \<le> 299 \<longrightarrow>
           search_google st t1 t2 q (Serp_response status message None)
             = (Reply_results [] False, st)
           \<and> search_google st t1 t2 q (Serp_response status message (Some []))
               = (Reply_results [] False, st)
           \<and> search_google st t1 t2 q (Serp_response status message (Some (x # xs)))
               = (Reply_results (map serp_result (take 10 (x # xs))) False,
                  st\<lparr>searchCache :=
                       AList.update (google_cacheKey q)
                         \<lparr>results = map serp_result (take 10 (x # xs)), ts = t2\<rparr>
                         (searchCache st)\<rparr>)
           \<and> map_of (searchCache (snd (search_google st t1 t2 q
                        (Serp_response status message (Some (x # xs)))))) (google_cacheKey q)
               = Some \<lparr>results = map serp_result (take 10 (x # xs)), ts = t2\<rparr>
           \<and> map serp_result (take 10 (x # xs)) \<noteq> []))
   \<and> (map_of (searchCache st) (google_cacheKey q) = Some c \<and> t1 - ts c < GOOGLE_CACHE_TTL \<longrightarrow>
        search_google st t1 t2 q up = (Reply_results (results c) True, st))
   \<and> (ddg_lookup st (at_lookup clk) (at_throttle clk) q' = Wait w
        \<and> at_evict clk - at_store clk \<le> CACHE_TTL \<longrightarrow>
       fst (search_duckduckgo st clk q' (Ddg_html els)) = Reply_results (scrape_results els) False
       \<and> map_of (searchCache (snd (search_duckduckgo st clk q' (Ddg_html els)))) (ddg_cacheKey q')
           = Some \<lparr>results = scrape_results els, ts = at_store clk\<rparr>)"
proof (intro conjI impI)
  assume hit: "map_of (searchCache st) (google_cacheKey q) = Some c \<and> t1 - ts c < GOOGLE_CACHE_TTL"
  then show "search_google st t1 t2 q up = (Reply_results (results c) True, st)"
    by (simp add: search_google_def Let_def)
next
  assume miss: "\<forall>c. map_of (searchCache st) (google_cacheKey q) = Some c \<longrightarrow>
                  \<not> t1 - ts c < GOOGLE_CACHE_TTL"
  note eq = serp_miss_eq [OF miss]
  show "search_google st t1 t2 q (Serp_failed msg) = (Reply_error 500 msg, st)"
    by (simp add: eq)
  {
    assume bad: "\<not> (200 \<le> status \<and> status \<le> 299)"
    then show "search_google st t1 t2 q (Serp_response status message organic)
             = (Reply_error status
                  (case message of
                     None \<Rightarrow> ''Oxylabs SERP error''
                   | Some m \<Rightarrow> if m = [] then ''Oxylabs SERP error'' else m), st)"
      by (simp add: eq)
  }
  {
    assume ok: "200 \<le> status \<and> status \<le> 299"
    from ok show "search_google st t1 t2 q (Serp_response status message None)
             = (Reply_results [] False, st)"
      by (simp add: eq)
    from ok show "search_google st t1 t2 q (Serp_response status message (Some []))
               = (Reply_results [] False, st)"
      by (simp add: eq)
    from ok show stored: "search_google st t1 t2 q (Serp_response status message (Some (x # xs)))
               = (Reply_results (map serp_result (take 10 (x # xs))) False,
                  st\<lparr>searchCache :=
                       AList.update (google_cacheKey q)
                         \<lparr>results = map serp_result (take 10 (x # xs)), ts = t2\<rparr>
                         (searchCache st)\<rparr>)"
      by (simp add: eq Let_def)
    show "map_of (searchCache (snd (search_google st t1 t2 q
                        (Serp_response status message (Some (x # xs)))))) (google_cacheKey q)
               = Some \<lparr>results = map serp_result (take 10 (x # xs)), ts = t2\<rparr>"
      unfolding stored by (simp add: update_conv')
    show "map serp_result (take 10 (x # xs)) \<noteq> []" by simp
  }
next
  assume a: "ddg_lookup st (at_lookup clk) (at_throttle clk) q' = Wait w
        \<and> at_evict clk - at_store clk \<le> CACHE_TTL"
  show "fst (search_duckduckgo st clk q' (Ddg_html els)) = Reply_results (scrape_results els) False"
    using a by (simp add: search_duckduckgo_def ddg_complete_def Let_def)
  from a have "search_duckduckgo st clk q' (Ddg_html els)
      = ddg_complete (ddg_dispatch st (at_dispatch clk)) (at_store clk) (at_evict clk) q' (Ddg_html els)"
    by (simp add: search_duckduckgo_def)
  moreover from a have "at_evict clk - at_store clk \<le> CACHE_TTL" by simp
  ultimately show "map_of (searchCache (snd (search_duckduckgo st clk q' (Ddg_html els)))) (ddg_cacheKey q')
           = Some \<lparr>results = scrape_results els, ts = at_store clk\<rparr>"
    by (simp only: ddg_complete_stores)
qed

theorem cache_store_policy_witness:
  "search_google \<lparr>searchCache = [], lastSearchTs = 0\<rparr> 1000000 1000900 '' Rust ''
       (Serp_failed ''timeout'')
     = (Reply_error 500 ''timeout'', \<lparr>searchCache = [], lastSearchTs = 0\<rparr>)
   \<and> search_google \<lparr>searchCache = [], lastSearchTs = 0\<rparr> 1000000 1000900 '' Rust ''
       (Serp_response 503 (Some ''busy'') (Some [\<lparr>serp_title = ''R'', serp_url = ''https://r.org'', serp_desc = None\<rparr>]))
     = (Reply_error 503 ''busy'', \<lparr>searchCache = [], lastSearchTs = 0\<rparr>)
   \<and> search_google \<lparr>searchCache = [], lastSearchTs = 0\<rparr> 1000000 1000900 '' Rust ''
       (Serp_response 200 None (Some []))
     = (Reply_results [] False, \<lparr>searchCache = [], lastSearchTs = 0\<rparr>)
   \<and> search_google \<lparr>searchCache = [], lastSearchTs = 0\<rparr> 1000000 1000900 '' Rust ''
       (Serp_response 200 None (Some [\<lparr>serp_title = ''R'', serp_url = ''https://r.org'', serp_desc = None\<rparr>]))
     = (Reply_results [\<lparr>title = ''R'', url = ''https://r.org'', snippet = []\<rparr>] False,
        \<lparr>searchCache =
           [(''g:rust'',
             \<lparr>results = [\<lparr>title = ''R'', url = ''https://r.org'', snippet = []\<rparr>], ts = 1000900\<rparr>)],
         lastSearchTs = 0\<rparr>)
   \<and> search_google
       \<lparr>searchCache =
           [(''g:rust'',
             \<lparr>results = [\<lparr>title = ''R'', url = ''https://r.org'', snippet = []\<rparr>], ts = 1000900\<rparr>)],
         lastSearchTs = 0\<rparr> 1002000 1002900 ''rust'' (Serp_failed ''timeout'')
     = (Reply_results [\<lparr>title = ''R'', url = ''https://r.org'', snippet = []\<rparr>] True,
        \<lparr>searchCache =
           [(''g:rust'',
             \<lparr>results = [\<lparr>title = ''R'', url = ''https://r.org'', snippet = []\<rparr>], ts = 1000900\<rparr>)],
         lastSearchTs = 0\<rparr>)
   \<and> search_duckduckgo \<lparr>searchCache = [], lastSearchTs = 0\<rparr>
         \<lparr>at_lookup = 1000000, at_throttle = 1000000, at_dispatch = 1000000,
          at_store = 1000800, at_evict = 1000800\<rparr> '' Rust '' (Ddg_html [])
       = (Reply_results [] False,
          \<lparr>searchCache = [(''rust'', \<lparr>results = [], ts = 1000800\<rparr>)], lastSearchTs = 1000000\<rparr>)"
proof -
  have key: "google_cacheKey '' Rust '' = ''g:rust''" "google_cacheKey ''rust'' = ''g:rust''"
    "ddg_cacheKey '' Rust '' = ''rust''"
    by (simp_all add: google_cacheKey_def ddg_cacheKey_def js_trim_def js_toLowerCase_def
        toLowerCase_unit_def isWhiteSpace_def char_of_eq_iff)
  have miss: "\<forall>c. map_of (searchCache \<lparr>searchCache = [], lastSearchTs = 0\<rparr>) (google_cacheKey '' Rust '')
                  = Some c \<longrightarrow> \<not> 1000000 - ts c < GOOGLE_CACHE_TTL"
    by simp
  have hit: "map_of (searchCache
                \<lparr>searchCache =
                   [(''g:rust'',
                     \<lparr>results = [\<lparr>title = ''R'', url = ''https://r.org'', snippet = []\<rparr>],
                      ts = 1000900\<rparr>)],
                 lastSearchTs = 0\<rparr>) (google_cacheKey ''rust'')
               = Some \<lparr>results = [\<lparr>title = ''R'', url = ''https://r.org'', snippet = []\<rparr>],
                       ts = 1000900\<rparr>
             \<and> 1002000 - ts \<lparr>results = [\<lparr>title = ''R'', url = ''https://r.org'', snippet = []\<rparr>],
                       ts = 1000900\<rparr> < GOOGLE_CACHE_TTL"
    by (simp add: key GOOGLE_CACHE_TTL_def)
  have wait: "ddg_lookup \<lparr>searchCache = [], lastSearchTs = 0\<rparr> 1000000 1000000 '' Rust '' = Wait 0"
    by (simp add: ddg_lookup_def throttle_wait_def MIN_GAP_MS_def)
  have ok: "200 \<le> (200::nat) \<and> (200::nat) \<le> 299" and bad: "\<not> (200 \<le> (503::nat) \<and> (503::nat) \<le> 299)"
    by simp_all
  note a = cache_store_policy [where st = "\<lparr>searchCache = [], lastSearchTs = 0\<rparr>"
      and ?t1.0 = 1000000 and ?t2.0 = 1000900 and q = "'' Rust ''" and msg = "''timeout''"
      and status = 200 and message = None
      and x = "\<lparr>serp_title = ''R'', serp_url = ''https://r.org'', serp_desc = None\<rparr>" and xs = "[]"
      and clk = "\<lparr>at_lookup = 1000000, at_throttle = 1000000, at_dispatch = 1000000,
          at_store = 1000800, at_evict = 1000800\<rparr>" and q' = "'' Rust ''" and w = 0 and els = "[]"]
  note b = cache_store_policy [where st = "\<lparr>searchCache = [], lastSearchTs = 0\<rparr>"
      and ?t1.0 = 1000000 and ?t2.0 = 1000900 and q = "'' Rust ''"
      and status = 503 and message = "Some ''busy''"
      and organic = "Some [\<lparr>serp_title = ''R'', serp_url = ''https://r.org'', serp_desc = None\<rparr>]"]
  note c = cache_store_policy [where st = "\<lparr>searchCache =
                   [(''g:rust'',
                     \<lparr>results = [\<lparr>title = ''R'', url = ''https://r.org'', snippet = []\<rparr>],
                      ts = 1000900\<rparr>)],
                 lastSearchTs = 0\<rparr>"
      and ?t1.0 = 1002000 and ?t2.0 = 1002900 and q = "''rust''"
      and c = "\<lparr>results = [\<lparr>title = ''R'', url = ''https://r.org'', snippet = []\<rparr>],
                       ts = 1000900\<rparr>"
      and up = "Serp_failed ''timeout''"]
  have 1: "search_google \<lparr>searchCache = [], lastSearchTs = 0\<rparr> 1000000 1000900 '' Rust ''
       (Serp_failed ''timeout'')
     = (Reply_error 500 ''timeout'', \<lparr>searchCache = [], lastSearchTs = 0\<rparr>)"
    using a miss by blast
  have 2: "search_google \<lparr>searchCache = [], lastSearchTs = 0\<rparr> 1000000 1000900 '' Rust ''
       (Serp_response 503 (Some ''busy'') (Some [\<lparr>serp_title = ''R'', serp_url = ''https://r.org'', serp_desc = None\<rparr>]))
     = (Reply_error 503 ''busy'', \<lparr>searchCache = [], lastSearchTs = 0\<rparr>)"
    using b miss bad by simp
  have 3: "search_google \<lparr>searchCache = [], lastSearchTs = 0\<rparr> 1000000 1000900 '' Rust ''
       (Serp_response 200 None (Some []))
     = (Reply_results [] False, \<lparr>searchCache = [], lastSearchTs = 0\<rparr>)"
    using a miss ok by blast
  have 4: "search_google \<lparr>searchCache = [], lastSearchTs = 0\<rparr> 1000000 1000900 '' Rust ''
       (Serp_response 200 None (Some [\<lparr>serp_title = ''R'', serp_url = ''https://r.org'', serp_desc = None\<rparr>]))
     = (Reply_results [\<lparr>title = ''R'', url = ''https://r.org'', snippet = []\<rparr>] False,
        \<lparr>searchCache =
           [(''g:rust'',
             \<lparr>results = [\<lparr>title = ''R'', url = ''https://r.org'', snippet = []\<rparr>], ts = 1000900\<rparr>)],
         lastSearchTs = 0\<rparr>)"
    using a miss ok by (simp add: key serp_result_def)
  have 5: "search_google
       \<lparr>searchCache =
           [(''g:rust'',
             \<lparr>results = [\<lparr>title = ''R'', url = ''https://r.org'', snippet = []\<rparr>], ts = 1000900\<rparr>)],
         lastSearchTs = 0\<rparr> 1002000 1002900 ''rust'' (Serp_failed ''timeout'')
     = (Reply_results [\<lparr>title = ''R'', url = ''https://r.org'', snippet = []\<rparr>] True,
        \<lparr>searchCache =
           [(''g:rust'',
             \<lparr>results = [\<lparr>title = ''R'', url = ''https://r.org'', snippet = []\<rparr>], ts = 1000900\<rparr>)],
         lastSearchTs = 0\<rparr>)"
    using c hit by simp
  have 6: "search_duckduckgo \<lparr>searchCache = [], lastSearchTs = 0\<rparr>
         \<lparr>at_lookup = 1000000, at_throttle = 1000000, at_dispatch = 1000000,
          at_store = 1000800, at_evict = 1000800\<rparr> '' Rust '' (Ddg_html [])
       = (Reply_results [] False,
          \<lparr>searchCache = [(''rust'', \<lparr>results = [], ts = 1000800\<rparr>)], lastSearchTs = 1000000\<rparr>)"
    using a wait
    by (simp add: key CACHE_TTL_def search_duckduckgo_def ddg_complete_def ddg_dispatch_def
        scrape_results_def)
  from 1 2 3 4 5 6 show ?thesis by blast
qed

section \<open>Throttle\<close>

text \<open>
  A request that is sent no earlier than its wait is over is sent at least the minimum
  gap after the timestamp it read.
\<close>

lemma throttle_wait_gap:
  "t_now + throttle_wait t_now lastTs \<le> t_sent \<Longrightarrow> MIN_GAP_MS \<le> t_sent - lastTs"
  by (simp add: throttle_wait_def)

text \<open>
  Claim C8: two searches of the scraped backend that both miss the cache never send
  their upstream requests less than 1.5 seconds apart. The timestamp is read before
  the wait and written after it, so a request that arrives while another one sleeps
  reads the timestamp of an earlier request. Evaluated here: a first request is sent
  at once at time 1000000; a second arrives 100 ms later and sleeps 1400 ms; a third
  arrives 200 ms later, reads the same timestamp and sleeps 1300 ms; both timers fire
  at time 1001500 and the second and third upstream requests are sent at the same
  millisecond.
\<close>

theorem throttle_overlap:
  "map_option dispatched
     (loop_run (loop_start 1000000)
        [Arrive 1 ''a'' 1000000, Arrive 2 ''b'' 1000100, Arrive 3 ''c'' 1000200,
         Wake 2 1001500, Wake 3 1001500])
   = Some [(1, 1000000), (2, 1001500), (3, 1001500)]"
  by (simp add: loop_start_def loop_step_def event_time_def ddg_lookup_def ddg_dispatch_def
      throttle_wait_def MIN_GAP_MS_def ddg_cacheKey_def js_trim_def js_toLowerCase_def
      toLowerCase_unit_def isWhiteSpace_def)

section \<open>Batch extraction\<close>

text \<open>
  The results of a batch are the values of the items whose fast path gave one, read
  off the outcomes in the order of the items.
\<close>

lemma extract_batch_filter:
  "extract_batch rb ra items =
     map the (filter (\<lambda>v. v \<noteq> None)
       (map (\<lambda>x. settled_value (extract_item (case rb of None \<Rightarrow> 500 | Some b \<Rightarrow> b)
                                      (case ra of None \<Rightarrow> 1000 | Some a \<Rightarrow> a) x)) items))"
  by (simp add: extract_batch_def Let_def comp_def)

text \<open>
  Claim C9: in a batch, an item whose fast-path extraction throws or yields no result
  is dropped from the results without any effect on the other items, and the results
  of the successful items stand in the order of their items. The batch of no item is
  empty; the batch of one item is its result when its extraction returns one, and
  nothing when it returns \<^verbatim>\<open>null\<close> or throws; the batch of a list of items followed by
  another is the results of the first followed by the results of the second; so the
  result list is never longer than the item list. The example of the claim follows:
  five items, the third failing its fetch, give exactly the four other results in the
  order of the input.
\<close>

theorem extract_batch_keeps_successes:
  "extract_batch rb ra [] = []
   \<and> extract_batch rb ra [x] =
       (case extract_item (case rb of None \<Rightarrow> 500 | Some b \<Rightarrow> b)
                          (case ra of None \<Rightarrow> 1000 | Some a \<Rightarrow> a) x of
          Inr (Some v) \<Rightarrow> [v]
        | Inr None \<Rightarrow> []
        | Inl err \<Rightarrow> [])
   \<and> extract_batch rb ra (xs @ ys) = extract_batch rb ra xs @ extract_batch rb ra ys
   \<and> length (extract_batch rb ra xs) \<le> length xs"
proof (intro conjI)
  show "extract_batch rb ra [] = []"
    by (simp add: extract_batch_filter)
  show "extract_batch rb ra [x] =
       (case extract_item (case rb of None \<Rightarrow> 500 | Some b \<Rightarrow> b)
                          (case ra of None \<Rightarrow> 1000 | Some a \<Rightarrow> a) x of
          Inr (Some v) \<Rightarrow> [v]
        | Inr None \<Rightarrow> []
        | Inl err \<Rightarrow> [])"
    by (simp add: extract_batch_filter settled_value_def split: sum.splits option.splits)
  show "extract_batch rb ra (xs @ ys) = extract_batch rb ra xs @ extract_batch rb ra ys"
    by (simp add: extract_batch_filter)
  show "length (extract_batch rb ra xs) \<le> length xs"
    using length_filter_le [of "\<lambda>v. v \<noteq> None"
        "map (\<lambda>x. settled_value (extract_item (case rb of None \<Rightarrow> 500 | Some b \<Rightarrow> b)
                                      (case ra of None \<Rightarrow> 1000 | Some a \<Rightarrow> a) x)) xs"]
    by (simp add: extract_batch_filter)
qed

theorem extract_batch_keeps_successes_witness:
  "extract_batch None None
     [(\<lparr>item_url = ''u1'', item_excerpt = ''fox'', item_charsBefore = Some 1, item_charsAfter = Some 1\<rparr>,
       Http_response True (Inr \<lparr>doc_title = ''1'', landmark_text = [], body_text = ''aa the fox bb''\<rparr>)),
      (\<lparr>item_url = ''u2'', item_excerpt = ''fox'', item_charsBefore = Some 2, item_charsAfter = None\<rparr>,
       Http_response True (Inr \<lparr>doc_title = ''2'', landmark_text = [], body_text = ''aa the fox bb''\<rparr>)),
      (\<lparr>item_url = ''u3'', item_excerpt = ''fox'', item_charsBefore = None, item_charsAfter = None\<rparr>,
       Fetch_failed),
      (\<lparr>item_url = ''u4'', item_excerpt = ''fox'', item_charsBefore = None, item_charsAfter = Some 0\<rparr>,
       Http_response True (Inr \<lparr>doc_title = ''4'', landmark_text = [], body_text = ''aa the fox bb''\<rparr>)),
      (\<lparr>item_url = ''u5'', item_excerpt = ''the'', item_charsBefore = Some 0, item_charsAfter = Some 0\<rparr>,
       Http_response True (Inr \<lparr>doc_title = ''5'', landmark_text = [], body_text = ''aa the fox bb''\<rparr>))]
   = [Found ''1'' ''u1'' '' fox '', Found ''2'' ''u2'' ''e fox bb'',
      Found ''4'' ''u4'' ''aa the fox'', Found ''5'' ''u5'' ''the'']"
  using extract_batch_keeps_successes [of None None
      "(\<lparr>item_url = ''u3'', item_excerpt = ''fox'', item_charsBefore = None, item_charsAfter = None\<rparr>,
       Fetch_failed)"
      "[(\<lparr>item_url = ''u1'', item_excerpt = ''fox'', item_charsBefore = Some 1, item_charsAfter = Some 1\<rparr>,
       Http_response True (Inr \<lparr>doc_title = ''1'', landmark_text = [], body_text = ''aa the fox bb''\<rparr>)),
      (\<lparr>item_url = ''u2'', item_excerpt = ''fox'', item_charsBefore = Some 2, item_charsAfter = None\<rparr>,
       Http_response True (Inr \<lparr>doc_title = ''2'', landmark_text = [], body_text = ''aa the fox bb''\<rparr>))]"
      "[(\<lparr>item_url = ''u3'', item_excerpt = ''fox'', item_charsBefore = None, item_charsAfter = None\<rparr>,
       Fetch_failed),
      (\<lparr>item_url = ''u4'', item_excerpt = ''fox'', item_charsBefore = None, item_charsAfter = Some 0\<rparr>,
       Http_response True (Inr \<lparr>doc_title = ''4'', landmark_text = [], body_text = ''aa the fox bb''\<rparr>)),
      (\<lparr>item_url = ''u5'', item_excerpt = ''the'', item_charsBefore = Some 0, item_charsAfter = Some 0\<rparr>,
       Http_response True (Inr \<lparr>doc_title = ''5'', landmark_text = [], body_text = ''aa the fox bb''\<rparr>))]"]
  by (simp add: extract_batch_def extract_item_def settled_value_def extractFast_def
      extractFromText_def page_body_def page_title_def js_trim_def isWhiteSpace_def js_slice_def)

section \<open>Session pool\<close>

text \<open>
  A call of \<^verbatim>\<open>getSession\<close> for a cached user returns the cached session and changes
  nothing; a call for another user leaves the entry alone; so does every operation on
  the pool that is not a \<^verbatim>\<open>destroy\<close> of this user.
\<close>

lemma getSession_other:
  "u \<noteq> userId \<Longrightarrow> sessions (snd (getSession bm u pw)) userId = sessions bm userId"
  by (simp add: getSession_def getSession_create_def Let_def split: option.splits)

lemma getSession_cached:
  "sessions bm userId = Some s \<Longrightarrow> getSession bm userId pw = (Inr s, bm)"
  by (simp add: getSession_def)

lemma getSession_keeps:
  assumes "sessions bm userId = Some s"
  shows "sessions (snd (getSession bm u pw)) userId = Some s"
proof (cases "u = userId")
  case True
  with assms show ?thesis by (simp add: getSession_cached)
next
  case False
  with assms show ?thesis by (simp add: getSession_other)
qed

lemma extractOneUrl_sessions:
  "sessions (fst (snd (extractOneUrl bm httpResp pw rendering pageUrl excerpt cb ca u)))
     = sessions (snd (getSession bm u pw))
   \<or> sessions (fst (snd (extractOneUrl bm httpResp pw rendering pageUrl excerpt cb ca u)))
     = sessions bm"
  by (simp add: extractOneUrl_def Let_def
      split: sum.splits option.splits prod.splits browser_outcome.splits)

lemma pool_step_keeps:
  assumes "sessions bm userId = Some s" and "\<not> destroys userId x"
  shows "sessions (pool_step bm x) userId = Some s"
proof (cases x)
  case (Op_start launch_ok)
  with assms show ?thesis by (simp add: start_def)
next
  case (Op_getSession u pw)
  with assms show ?thesis by (simp add: getSession_keeps)
next
  case (Op_destroy u close_ok)
  with assms show ?thesis by (simp add: destroy_def split: option.splits)
next
  case (Op_extractOneUrl httpResp pw rendering pageUrl excerpt cb ca u)
  with assms extractOneUrl_sessions [of bm httpResp pw rendering pageUrl excerpt cb ca u]
    getSession_keeps [OF assms(1), of u pw]
  show ?thesis by auto
qed

lemma pool_run_keeps:
  "sessions bm userId = Some s \<Longrightarrow> \<forall>x \<in> set ops. \<not> destroys userId x \<Longrightarrow>
   sessions (pool_run bm ops) userId = Some s"
  by (induction ops arbitrary: bm) (simp_all add: pool_step_keeps)

text \<open>
  Calls that do not overlap: after a first call has returned a session, leaving the
  pool in state \<open>bm1\<close>, the session is cached under the identifier; a second call,
  whatever the engine would answer, returns exactly that session and leaves the state
  as it is, so that no context and no page is created; after any operations on the
  pool, run one after the other, none of which is a \<^verbatim>\<open>destroy\<close> of this identifier
  the entry is still there and still returned; and \<^verbatim>\<open>destroy\<close> of the identifier,
  when the context closes, removes it.
\<close>

lemma getSession_sequential:
  "getSession bm userId pw = (Inr s, bm1) \<longrightarrow>
     sessions bm1 userId = Some s
     \<and> getSession bm1 userId pw' = (Inr s, bm1)
     \<and> ((\<forall>x \<in> set ops. \<not> destroys userId x) \<longrightarrow>
          sessions (pool_run bm1 ops) userId = Some s
          \<and> getSession (pool_run bm1 ops) userId pw' = (Inr s, pool_run bm1 ops))
     \<and> sessions (snd (destroy bm1 userId True)) userId = None"
proof (intro conjI impI)
  assume a: "getSession bm userId pw = (Inr s, bm1)"
  then show 1: "sessions bm1 userId = Some s"
    by (auto simp: getSession_def getSession_create_def Let_def split: option.splits if_splits)
  then show "getSession bm1 userId pw' = (Inr s, bm1)"
    by (rule getSession_cached)
  from 1 show "sessions (snd (destroy bm1 userId True)) userId = None"
    by (simp add: destroy_def)
  assume "\<forall>x \<in> set ops. \<not> destroys userId x"
  with 1 show 2: "sessions (pool_run bm1 ops) userId = Some s"
    by (rule pool_run_keeps)
  then show "getSession (pool_run bm1 ops) userId pw' = (Inr s, pool_run bm1 ops)"
    by (rule getSession_cached)
qed

lemma getSession_sequential_example:
  "getSession
     \<lparr>browser = True, sessions = Map.empty, contexts_created = 0, pages_created = 0,
      contexts_closed = [], pages_closed = []\<rparr> ''u1'' None
     = (Inr \<lparr>ctx = 0, pg = 0\<rparr>,
        \<lparr>browser = True, sessions = [''u1'' \<mapsto> \<lparr>ctx = 0, pg = 0\<rparr>], contexts_created = 1,
         pages_created = 1, contexts_closed = [], pages_closed = []\<rparr>)
   \<and> getSession
        \<lparr>browser = True, sessions = [''u1'' \<mapsto> \<lparr>ctx = 0, pg = 0\<rparr>], contexts_created = 1,
         pages_created = 1, contexts_closed = [], pages_closed = []\<rparr> ''u1'' None
     = (Inr \<lparr>ctx = 0, pg = 0\<rparr>,
        \<lparr>browser = True, sessions = [''u1'' \<mapsto> \<lparr>ctx = 0, pg = 0\<rparr>], contexts_created = 1,
         pages_created = 1, contexts_closed = [], pages_closed = []\<rparr>)
   \<and> sessions
        (pool_run
           \<lparr>browser = True, sessions = [''u1'' \<mapsto> \<lparr>ctx = 0, pg = 0\<rparr>], contexts_created = 1,
            pages_created = 1, contexts_closed = [], pages_closed = []\<rparr>
           [Op_getSession ''u2'' None, Op_destroy ''u2'' True, Op_start True,
            Op_extractOneUrl Fetch_failed None Goto_rejects ''http://x'' ''fox'' 500 1000 ''u1''])
        ''u1'' = Some \<lparr>ctx = 0, pg = 0\<rparr>
   \<and> sessions
        (snd (destroy
           \<lparr>browser = True, sessions = [''u1'' \<mapsto> \<lparr>ctx = 0, pg = 0\<rparr>], contexts_created = 1,
            pages_created = 1, contexts_closed = [], pages_closed = []\<rparr> ''u1'' True))
        ''u1'' = None"
proof -
  have first: "getSession
     \<lparr>browser = True, sessions = Map.empty, contexts_created = 0, pages_created = 0,
      contexts_closed = [], pages_closed = []\<rparr> ''u1'' None
     = (Inr \<lparr>ctx = 0, pg = 0\<rparr>,
        \<lparr>browser = True, sessions = [''u1'' \<mapsto> \<lparr>ctx = 0, pg = 0\<rparr>], contexts_created = 1,
         pages_created = 1, contexts_closed = [], pages_closed = []\<rparr>)"
    by (simp add: getSession_def getSession_create_def Let_def)
  have ops: "\<forall>x \<in> set [Op_getSession ''u2'' None, Op_destroy ''u2'' True, Op_start True,
            Op_extractOneUrl Fetch_failed None Goto_rejects ''http://x'' ''fox'' 500 1000 ''u1''].
          \<not> destroys ''u1'' x"
    by simp
  from first ops
    getSession_sequential [where bm = "\<lparr>browser = True, sessions = Map.empty, contexts_created = 0,
        pages_created = 0, contexts_closed = [], pages_closed = []\<rparr>"
      and userId = "''u1''" and pw = None and pw' = None and s = "\<lparr>ctx = 0, pg = 0\<rparr>"
      and ?bm1.0 = "\<lparr>browser = True, sessions = [''u1'' \<mapsto> \<lparr>ctx = 0, pg = 0\<rparr>],
         contexts_created = 1, pages_created = 1, contexts_closed = [], pages_closed = []\<rparr>"
      and ops = "[Op_getSession ''u2'' None, Op_destroy ''u2'' True, Op_start True,
            Op_extractOneUrl Fetch_failed None Goto_rejects ''http://x'' ''fox'' 500 1000 ''u1'']"]
  show ?thesis by blast
qed

text \<open>
  The run of calls in flight together contains the calls that do not overlap: a call
  that hits is one event, a call that misses is its start followed at once by the
  engine's answer.
\<close>

lemma pool_loop_hit:
  "sessions bm userId = Some s \<Longrightarrow>
   pool_loop_run (pool_loop_start bm) [Call_getSession n userId]
     = Some \<lparr>pool = snd (getSession bm userId pw), creating = [],
             returned = [(n, fst (getSession bm userId pw))]\<rparr>"
  by (simp add: pool_loop_start_def pool_loop_step_def getSession_def)

lemma pool_loop_miss:
  "sessions bm userId = None \<Longrightarrow> browser bm \<Longrightarrow>
   pool_loop_run (pool_loop_start bm) [Call_getSession n userId, Engine_answers n pw]
     = Some \<lparr>pool = snd (getSession bm userId pw), creating = [],
             returned = [(n, fst (getSession bm userId pw))]\<rparr>"
  by (simp add: pool_loop_start_def pool_loop_step_def getSession_def split: prod.splits)

text \<open>
  Claim C10: \<^verbatim>\<open>getSession\<close> is idempotent per user identifier: a second call with the
  same identifier returns exactly the session cached by the first call and creates no
  context and no page, and the entry stays in the map until \<^verbatim>\<open>destroy\<close> of that
  identifier. The method tests the map at line 27 and stores at line 62, with four
  awaited engine calls between them, so a call that starts before an earlier call of
  the same identifier has stored misses as well. Evaluated here, on a launched pool
  without sessions: calls 1 and 2 for the user \<^verbatim>\<open>u1\<close> both start and miss; the
  engine answers call 1, which stores and returns the session of context 0 and page 0;
  call 3 is served that session from the map; the engine answers call 2, which has
  created context 1 and page 1, stores its own session over the entry and returns it;
  call 4 is served the session of call 2. Two contexts and two pages exist for one
  identifier, calls 1 and 2 returned different sessions, and the entry that calls 1
  and 3 were given has left the map without any \<^verbatim>\<open>destroy\<close>.
\<close>

theorem getSession_overlap:
  "map_option (\<lambda>pl. (returned pl, sessions (pool pl) ''u1'',
                      contexts_created (pool pl), pages_created (pool pl)))
     (pool_loop_run
        (pool_loop_start
           \<lparr>browser = True, sessions = Map.empty, contexts_created = 0, pages_created = 0,
            contexts_closed = [], pages_closed = []\<rparr>)
        [Call_getSession 1 ''u1'', Call_getSession 2 ''u1'', Engine_answers 1 None,
         Call_getSession 3 ''u1'', Engine_answers 2 None, Call_getSession 4 ''u1''])
   = Some ([(1, Inr \<lparr>ctx = 0, pg = 0\<rparr>), (3, Inr \<lparr>ctx = 0, pg = 0\<rparr>),
            (2, Inr \<lparr>ctx = 1, pg = 1\<rparr>), (4, Inr \<lparr>ctx = 1, pg = 1\<rparr>)],
           Some \<lparr>ctx = 1, pg = 1\<rparr>, 2, 2)"
  by (simp add: pool_loop_start_def pool_loop_step_def getSession_create_def Let_def)

section \<open>Fast path and browser fallback\<close>

lemma extractFast_null:
  "(extractFast httpResp pageUrl excerpt cb ca = Inr None) =
     (case httpResp of
        Fetch_failed \<Rightarrow> True
      | Http_response ok rd \<Rightarrow>
          \<not> ok \<or>
          (case rd of
             Inl err \<Rightarrow> False
           | Inr doc \<Rightarrow>
               (case extractFromText (page_body doc) excerpt cb ca (page_title doc) pageUrl of
                  None \<Rightarrow> True
                | Some (NotFound a b c) \<Rightarrow> True
                | Some (Found a b c) \<Rightarrow> False)))"
  by (simp add: extractFast_def
      split: http_outcome.splits sum.splits option.splits extraction_result.splits)

lemma extractFast_found:
  "extractFast httpResp pageUrl excerpt cb ca = Inr (Some r) \<Longrightarrow> \<exists>a b c. r = Found a b c"
  by (auto simp: extractFast_def
      split: http_outcome.splits sum.splits option.splits extraction_result.splits if_splits)

lemma extractOneUrl_log:
  "(Get_session userId \<in> set (snd (snd (extractOneUrl bm httpResp pw rendering pageUrl excerpt cb ca userId))))
     = (extractFast httpResp pageUrl excerpt cb ca = Inr None)"
proof (cases "extractFast httpResp pageUrl excerpt cb ca")
  case (Inl err)
  then show ?thesis by (simp add: extractOneUrl_def)
next
  case (Inr v)
  show ?thesis
  proof (cases v)
    case None
    with Inr show ?thesis
      by (simp add: extractOneUrl_def Let_def
          split: prod.splits sum.splits browser_outcome.splits)
  next
    case (Some r)
    with Inr show ?thesis by (simp add: extractOneUrl_def)
  qed
qed

text \<open>
  Claim C1. The claim reads: the browser path of \<^verbatim>\<open>extractOneUrl\<close> is entered only
  when the excerpt logic never ran, and no session is acquired whenever the fast path
  retrieved body text and the excerpt logic ended in \<^verbatim>\<open>Found\<close> or \<^verbatim>\<open>NotFound\<close>. As
  stated this fails: line 209 turns a result that is not \<^verbatim>\<open>found\<close> into \<^verbatim>\<open>null\<close>, and
  line 215 falls through to the browser on \<^verbatim>\<open>null\<close>. Below, the fast path reads the
  body \<^verbatim>\<open>hello world\<close>, the excerpt logic ends in \<^verbatim>\<open>NotFound\<close>, and the call acquires the
  session of the user and opens a page.
\<close>

theorem extractOneUrl_not_found_counterexample:
  "page_body \<lparr>doc_title = ''T'', landmark_text = [], body_text = ''hello world''\<rparr> = ''hello world''
   \<and> extractFromText ''hello world'' ''zzz'' 500 1000 ''T'' ''http://x''
       = Some (NotFound ''T'' ''http://x'' ''hello world'')
   \<and> snd (snd (extractOneUrl
         \<lparr>browser = True, sessions = Map.empty, contexts_created = 0, pages_created = 0,
          contexts_closed = [], pages_closed = []\<rparr>
         (Http_response True (Inr \<lparr>doc_title = ''T'', landmark_text = [], body_text = ''hello world''\<rparr>))
         None (Rendered ''hello world'' ''T'' ''http://x'') ''http://x'' ''zzz'' 500 1000 ''u1''))
       = [Http_fetch ''http://x'', Get_session ''u1'', New_page 1, Close_page 1]"
  by (simp add: extractOneUrl_def extractFast_def extractFromText_def getSession_def
      getSession_create_def
      page_body_def page_title_def js_trim_def isWhiteSpace_def js_slice_def Let_def)

text \<open>
  Claim C1, amended: the browser path of \<^verbatim>\<open>extractOneUrl\<close> is entered, and the session of
  the user acquired, exactly when \<^verbatim>\<open>extractFast\<close> returns \<^verbatim>\<open>null\<close>; that is when the
  fetch fails, or the response is not a success, or the body is read and the excerpt
  logic returns \<^verbatim>\<open>null\<close> (empty body text) or ends in \<^verbatim>\<open>NotFound\<close>. When
  \<^verbatim>\<open>extractFast\<close> returns a result, it is a \<^verbatim>\<open>Found\<close>, the call returns it, the pool
  is left as it is and the only effect is the fetch.
\<close>

theorem extractOneUrl_fallback:
  "(Get_session userId \<in> set (snd (snd (extractOneUrl bm httpResp pw rendering pageUrl excerpt cb ca userId))))
     = (extractFast httpResp pageUrl excerpt cb ca = Inr None)
   \<and> (extractFast httpResp pageUrl excerpt cb ca = Inr None) =
       (case httpResp of
          Fetch_failed \<Rightarrow> True
        | Http_response ok rd \<Rightarrow>
            \<not> ok \<or>
            (case rd of
               Inl err \<Rightarrow> False
             | Inr doc \<Rightarrow>
                 (case extractFromText (page_body doc) excerpt cb ca (page_title doc) pageUrl of
                    None \<Rightarrow> True
                  | Some (NotFound a b c) \<Rightarrow> True
                  | Some (Found a b c) \<Rightarrow> False)))
   \<and> (extractFast httpResp pageUrl excerpt cb ca = Inr (Some r) \<longrightarrow>
        (\<exists>a b c. r = Found a b c)
        \<and> extractOneUrl bm httpResp pw rendering pageUrl excerpt cb ca userId
            = (Inr r, bm, [Http_fetch pageUrl]))"
proof (intro conjI impI)
  show "(Get_session userId \<in> set (snd (snd (extractOneUrl bm httpResp pw rendering pageUrl excerpt cb ca userId))))
     = (extractFast httpResp pageUrl excerpt cb ca = Inr None)"
    by (rule extractOneUrl_log)
  show "(extractFast httpResp pageUrl excerpt cb ca = Inr None) =
       (case httpResp of
          Fetch_failed \<Rightarrow> True
        | Http_response ok rd \<Rightarrow>
            \<not> ok \<or>
            (case rd of
               Inl err \<Rightarrow> False
             | Inr doc \<Rightarrow>
                 (case extractFromText (page_body doc) excerpt cb ca (page_title doc) pageUrl of
                    None \<Rightarrow> True
                  | Some (NotFound a b c) \<Rightarrow> True
                  | Some (Found a b c) \<Rightarrow> False)))"
    by (rule extractFast_null)
next
  assume a: "extractFast httpResp pageUrl excerpt cb ca = Inr (Some r)"
  then show "\<exists>a b c. r = Found a b c" by (rule extractFast_found)
  from a show "extractOneUrl bm httpResp pw rendering pageUrl excerpt cb ca userId
            = (Inr r, bm, [Http_fetch pageUrl])"
    by (simp add: extractOneUrl_def)
qed

theorem extractOneUrl_fallback_witness:
  "extractFast
      (Http_response True (Inr \<lparr>doc_title = '' T '', landmark_text = [], body_text = ''aa the fox bb''\<rparr>))
      ''http://x'' ''fox'' 2 1 = Inr (Some (Found ''T'' ''http://x'' ''e fox ''))
   \<and> extractOneUrl
        \<lparr>browser = True, sessions = Map.empty, contexts_created = 0, pages_created = 0,
         contexts_closed = [], pages_closed = []\<rparr>
        (Http_response True (Inr \<lparr>doc_title = '' T '', landmark_text = [], body_text = ''aa the fox bb''\<rparr>))
        None Goto_rejects ''http://x'' ''fox'' 2 1 ''u1''
      = (Inr (Found ''T'' ''http://x'' ''e fox ''),
         \<lparr>browser = True, sessions = Map.empty, contexts_created = 0, pages_created = 0,
          contexts_closed = [], pages_closed = []\<rparr>,
         [Http_fetch ''http://x''])"
proof -
  have fast: "extractFast
      (Http_response True (Inr \<lparr>doc_title = '' T '', landmark_text = [], body_text = ''aa the fox bb''\<rparr>))
      ''http://x'' ''fox'' 2 1 = Inr (Some (Found ''T'' ''http://x'' ''e fox ''))"
    by (simp add: extractFast_def extractFromText_def page_body_def page_title_def js_trim_def
        isWhiteSpace_def js_slice_def)
  from fast
    extractOneUrl_fallback [where httpResp = "Http_response True
          (Inr \<lparr>doc_title = '' T '', landmark_text = [], body_text = ''aa the fox bb''\<rparr>)"
      and pageUrl = "''http://x''" and excerpt = "''fox''" and cb = 2 and ca = 1
      and r = "Found ''T'' ''http://x'' ''e fox ''"
      and bm = "\<lparr>browser = True, sessions = Map.empty, contexts_created = 0, pages_created = 0,
         contexts_closed = [], pages_closed = []\<rparr>"
      and pw = None and rendering = Goto_rejects and userId = "''u1''"]
  show ?thesis by blast
qed

end
